theory Spec2Isabelle
  imports Complex_Main "HOL-Library.Log_Nat"
begin

section \<open>JavaScript numbers\<close>

text \<open>
  The screen is JavaScript. Its strings are modelled as \<open>string\<close>, holding the UTF-8
  bytes of the text (so every ASCII character is one \<open>char\<close>, and a glyph such as the
  bullet is three). Its numbers are IEEE 754 doubles: a number is \<open>NaN\<close>, an infinity, or
  a finite value kept as the rational it denotes. Every operation that produces a number
  rounds its exact result with \<open>round_double\<close> (round to nearest, ties to even, 53 bits,
  gradual underflow, overflow to infinity). The sign of zero is not kept: nothing the screen
  does can tell \<open>-0\<close> from \<open>0\<close> (both are falsy, both print as \<open>0\<close>).
\<close>

datatype jsnum = NaN | PInf | NInf | Fin rat

definition pow2 :: "int \<Rightarrow> rat" where
  "pow2 e = (if 0 \<le> e then 2 ^ nat e else 1 / 2 ^ nat (- e))"

definition pow10 :: "int \<Rightarrow> rat" where
  "pow10 e = (if 0 \<le> e then 10 ^ nat e else 1 / 10 ^ nat (- e))"

definition ilog2 :: "rat \<Rightarrow> int" where
  \<comment> \<open>the binary exponent of a positive rational: \<open>pow2 (ilog2 q) \<le> q < pow2 (ilog2 q + 1)\<close>\<close>
  "ilog2 q =
     (let d = bitlen (fst (quotient_of q)) - bitlen (snd (quotient_of q))
      in if pow2 d \<le> q then d else d - 1)"

definition round_half_even :: "rat \<Rightarrow> int" where
  "round_half_even q =
     (let f = \<lfloor>q\<rfloor>; r = q - of_int f
      in if r < 1 / 2 then f
         else if 1 / 2 < r then f + 1
         else if even f then f else f + 1)"

definition round_double :: "rat \<Rightarrow> jsnum" where
  "round_double q =
     (if q = 0 then Fin 0
      else
        let a = \<bar>q\<bar>;
            e = max (ilog2 a) (- 1022);
            u = pow2 (e - 52);
            v = of_int (round_half_even (a / u)) * u
        in if pow2 1024 \<le> v then (if q < 0 then NInf else PInf)
           else Fin (if q < 0 then - v else v))"

definition js_mul :: "jsnum \<Rightarrow> jsnum \<Rightarrow> jsnum" where
  \<comment> \<open>the operator \<open>*\<close> on numbers\<close>
  "js_mul x y =
     (case (x, y) of
        (Fin a, Fin b) \<Rightarrow> round_double (a * b)
      | (NaN, _) \<Rightarrow> NaN
      | (_, NaN) \<Rightarrow> NaN
      | (Fin a, PInf) \<Rightarrow> if a = 0 then NaN else if 0 < a then PInf else NInf
      | (Fin a, NInf) \<Rightarrow> if a = 0 then NaN else if 0 < a then NInf else PInf
      | (PInf, Fin b) \<Rightarrow> if b = 0 then NaN else if 0 < b then PInf else NInf
      | (NInf, Fin b) \<Rightarrow> if b = 0 then NaN else if 0 < b then NInf else PInf
      | (PInf, PInf) \<Rightarrow> PInf
      | (NInf, NInf) \<Rightarrow> PInf
      | (PInf, NInf) \<Rightarrow> NInf
      | (NInf, PInf) \<Rightarrow> NInf)"

section \<open>Parsing numbers out of strings\<close>

definition is_digit :: "char \<Rightarrow> bool" where
  "is_digit c = (48 \<le> (of_char c :: int) \<and> (of_char c :: int) \<le> 57)"

definition is_hex_digit :: "char \<Rightarrow> bool" where
  "is_hex_digit c =
     (is_digit c
      \<or> (97 \<le> (of_char c :: int) \<and> (of_char c :: int) \<le> 102)
      \<or> (65 \<le> (of_char c :: int) \<and> (of_char c :: int) \<le> 70))"

definition digit_value :: "char \<Rightarrow> int" where
  "digit_value c =
     (let n = of_char c
      in if 97 \<le> n then n - 87 else if 65 \<le> n then n - 55 else n - 48)"

definition digits_value :: "int \<Rightarrow> string \<Rightarrow> int" where
  \<comment> \<open>the number a run of digits denotes in radix \<open>R\<close>\<close>
  "digits_value R ds = foldl (\<lambda>acc c. acc * R + digit_value c) 0 ds"

fun strip_prefix :: "string \<Rightarrow> string \<Rightarrow> string option" where
  "strip_prefix [] s = Some s"
| "strip_prefix (p # ps) [] = None"
| "strip_prefix (p # ps) (c # cs) = (if p = c then strip_prefix ps cs else None)"

definition white_space :: "string list" where
  \<comment> \<open>the white space and line terminator code points of ECMAScript, in UTF-8\<close>
  "white_space =
     [[CHR 0x09], [CHR 0x0A], [CHR 0x0B], [CHR 0x0C], [CHR 0x0D], [CHR 0x20],
      [CHR 0xC2, CHR 0xA0],
      [CHR 0xE1, CHR 0x9A, CHR 0x80],
      [CHR 0xE2, CHR 0x80, CHR 0x80], [CHR 0xE2, CHR 0x80, CHR 0x81],
      [CHR 0xE2, CHR 0x80, CHR 0x82], [CHR 0xE2, CHR 0x80, CHR 0x83],
      [CHR 0xE2, CHR 0x80, CHR 0x84], [CHR 0xE2, CHR 0x80, CHR 0x85],
      [CHR 0xE2, CHR 0x80, CHR 0x86], [CHR 0xE2, CHR 0x80, CHR 0x87],
      [CHR 0xE2, CHR 0x80, CHR 0x88], [CHR 0xE2, CHR 0x80, CHR 0x89],
      [CHR 0xE2, CHR 0x80, CHR 0x8A],
      [CHR 0xE2, CHR 0x80, CHR 0xA8], [CHR 0xE2, CHR 0x80, CHR 0xA9],
      [CHR 0xE2, CHR 0x80, CHR 0xAF],
      [CHR 0xE2, CHR 0x81, CHR 0x9F],
      [CHR 0xE3, CHR 0x80, CHR 0x80],
      [CHR 0xEF, CHR 0xBB, CHR 0xBF]]"

fun first_stripped :: "string list \<Rightarrow> string \<Rightarrow> string option" where
  "first_stripped [] s = None"
| "first_stripped (p # ps) s =
     (case strip_prefix p s of Some r \<Rightarrow> Some r | None \<Rightarrow> first_stripped ps s)"

fun trim_fuel :: "nat \<Rightarrow> string \<Rightarrow> string" where
  "trim_fuel 0 s = s"
| "trim_fuel (Suc n) s =
     (case first_stripped white_space s of Some r \<Rightarrow> trim_fuel n r | None \<Rightarrow> s)"

definition TrimStart :: "string \<Rightarrow> string" where
  \<comment> \<open>drops leading white space; each round removes at least one byte, so \<open>length s\<close>
      rounds are enough\<close>
  "TrimStart s = trim_fuel (length s) s"

definition split_sign :: "string \<Rightarrow> bool \<times> string" where
  \<comment> \<open>an optional leading \<open>+\<close> or \<open>-\<close>; the flag says the sign is minus\<close>
  "split_sign s =
     (case s of
        [] \<Rightarrow> (False, s)
      | c # r \<Rightarrow> if c = CHR ''-'' then (True, r) else if c = CHR ''+'' then (False, r)
                 else (False, s))"

definition exponent_part :: "string \<Rightarrow> int" where
  \<comment> \<open>the value of a leading ExponentPart (\<open>e\<close> or \<open>E\<close>, optional sign, digits); 0 if
      there is none\<close>
  "exponent_part s =
     (case s of
        [] \<Rightarrow> 0
      | c # r \<Rightarrow>
          if c = CHR ''e'' \<or> c = CHR ''E'' then
            (let (neg, t) = split_sign r; ds = takeWhile is_digit t
             in if ds = [] then 0
                else if neg then - digits_value 10 ds else digits_value 10 ds)
          else 0)"

definition parseFloat :: "string \<Rightarrow> jsnum" where
  \<comment> \<open>the global \<open>parseFloat\<close>: the longest prefix of the trimmed input that is a
      StrDecimalLiteral, or \<open>NaN\<close> when no prefix is\<close>
  "parseFloat inputString =
     (let (neg, u) = split_sign (TrimStart inputString)
      in if strip_prefix ''Infinity'' u \<noteq> None then (if neg then NInf else PInf)
         else
           let ip = takeWhile is_digit u;
               r1 = dropWhile is_digit u;
               dot = (r1 \<noteq> [] \<and> hd r1 = CHR ''.'');
               fp = (if dot then takeWhile is_digit (tl r1) else []);
               r2 = (if dot then dropWhile is_digit (tl r1) else r1)
           in if ip = [] \<and> fp = [] then NaN
              else
                let mv = of_int (digits_value 10 (ip @ fp))
                           * pow10 (exponent_part r2 - int (length fp))
                in round_double (if neg then - mv else mv))"

definition parseInt :: "string \<Rightarrow> jsnum" where
  \<comment> \<open>the global \<open>parseInt\<close> called with one argument: radix 10, or 16 after a
      \<open>0x\<close>/\<open>0X\<close> prefix; \<open>NaN\<close> when no digit follows\<close>
  "parseInt inputString =
     (let (neg, s) = split_sign (TrimStart inputString);
          hex = (strip_prefix ''0x'' s \<noteq> None \<or> strip_prefix ''0X'' s \<noteq> None);
          z = (if hex then takeWhile is_hex_digit (drop 2 s) else takeWhile is_digit s);
          mathInt = digits_value (if hex then 16 else 10) z
      in if z = [] then NaN
         else round_double (of_int (if neg then - mathInt else mathInt)))"

section \<open>Printing numbers\<close>

function decimal :: "int \<Rightarrow> string" where
  \<comment> \<open>the decimal digits of a non-negative integer\<close>
  "decimal n = (if n < 10 then [char_of (48 + n)] else decimal (n div 10) @ [char_of (48 + n mod 10)])"
  by pat_completeness auto
termination
  by (relation "measure nat") auto

declare decimal.simps [simp del]

definition ilog10 :: "rat \<Rightarrow> int" where
  \<comment> \<open>the decimal exponent of a positive rational: \<open>pow10 (ilog10 q) \<le> q < pow10 (ilog10 q + 1)\<close>\<close>
  "ilog10 q =
     (if 1 \<le> q then int (length (decimal \<lfloor>q\<rfloor>)) - 1
      else
        let m = int (length (decimal \<lfloor>1 / q\<rfloor>))
        in if pow10 (1 - m) \<le> q then 1 - m else - m)"

definition digits_try :: "rat \<Rightarrow> int \<Rightarrow> int \<Rightarrow> (int \<times> int) option" where
  \<comment> \<open>Number::toString, step 5, for one digit count \<open>k\<close>: an integer \<open>s\<close> of \<open>k\<close> digits and
      an exponent \<open>n\<close> with \<open>s * 10 ^ (n - k)\<close> rounding to \<open>x\<close>, the nearest to \<open>x\<close> if two do\<close>
  "digits_try x n0 k =
     (let scale = pow10 (n0 - k);
          lo = \<lfloor>x / scale\<rfloor>;
          hi = lo + 1;
          ok_lo = (round_double (of_int lo * scale) = Fin x);
          ok_hi = (round_double (of_int hi * scale) = Fin x);
          d_lo = x - of_int lo * scale;
          d_hi = of_int hi * scale - x;
          pick = (if ok_lo \<and> ok_hi
                  then (if d_lo < d_hi then lo else if d_hi < d_lo then hi
                        else if even lo then lo else hi)
                  else if ok_lo then lo else hi)
      in if \<not> ok_lo \<and> \<not> ok_hi then None
         else if pick = 10 ^ nat k then Some (10 ^ nat (k - 1), n0 + 1)
         else Some (pick, n0))"

fun shortest_digits :: "rat \<Rightarrow> int \<Rightarrow> nat \<Rightarrow> int \<Rightarrow> int \<times> int \<times> int" where
  \<comment> \<open>the least digit count that works, tried upwards from \<open>k\<close>; a double needs at most 17\<close>
  "shortest_digits x n0 0 k = (k, \<lfloor>x / pow10 (n0 - k)\<rfloor>, n0)"
| "shortest_digits x n0 (Suc fuel) k =
     (case digits_try x n0 k of
        Some (s, n) \<Rightarrow> (k, s, n)
      | None \<Rightarrow> shortest_digits x n0 fuel (k + 1))"

definition zeros :: "int \<Rightarrow> string" where
  "zeros n = replicate (nat n) (CHR ''0'')"

definition Number_toString_pos :: "rat \<Rightarrow> string" where
  \<comment> \<open>Number::toString in radix 10 for a positive finite number, steps 5 to 11\<close>
  "Number_toString_pos x =
     (let (k, s, n) = shortest_digits x (ilog10 x + 1) 17 1;
          ds = decimal s;
          ex = (if 0 \<le> n - 1 then ''+'' else ''-'') @ decimal \<bar>n - 1\<bar>
      in if k \<le> n \<and> n \<le> 21 then ds @ zeros (n - k)
         else if 0 < n \<and> n \<le> 21 then take (nat n) ds @ ''.'' @ drop (nat n) ds
         else if - 6 < n \<and> n \<le> 0 then ''0.'' @ zeros (- n) @ ds
         else if k = 1 then ds @ ''e'' @ ex
         else take 1 ds @ ''.'' @ drop 1 ds @ ''e'' @ ex)"

definition Number_toString :: "jsnum \<Rightarrow> string" where
  "Number_toString x =
     (case x of
        NaN \<Rightarrow> ''NaN''
      | PInf \<Rightarrow> ''Infinity''
      | NInf \<Rightarrow> ''-Infinity''
      | Fin q \<Rightarrow>
          if q = 0 then ''0''
          else if q < 0 then ''-'' @ Number_toString_pos (- q)
          else Number_toString_pos q)"

definition fixed_digits :: "int \<Rightarrow> nat \<Rightarrow> string" where
  \<comment> \<open>\<open>toFixed\<close>, the digits: the integer \<open>n\<close> written with a point before its last
      \<open>f\<close> digits, zeros put in front when \<open>n\<close> has too few\<close>
  "fixed_digits n f =
     (let m = (if n = 0 then ''0'' else decimal n);
          m' = (if length m \<le> f then zeros (int (f + 1 - length m)) @ m else m)
      in if f \<noteq> 0
         then take (length m' - f) m' @ ''.'' @ drop (length m' - f) m'
         else m)"

definition toFixed :: "jsnum \<Rightarrow> nat \<Rightarrow> string" where
  \<comment> \<open>\<open>Number.prototype.toFixed\<close> for a digit count \<open>f\<close> within its range 0 to 100; the
      integer printed is the one nearest to \<open>x * 10 ^ f\<close>, the larger one of two\<close>
  "toFixed x f =
     (case x of
        Fin q \<Rightarrow>
          let s = (if q < 0 then ''-'' else []);
              a = \<bar>q\<bar>
          in if 10 ^ 21 \<le> a then s @ Number_toString_pos a
             else s @ fixed_digits \<lfloor>a * 10 ^ f + 1 / 2\<rfloor> f
      | _ \<Rightarrow> Number_toString x)"

section \<open>Values, truthiness and strings\<close>

datatype jsval = JNull | JNum jsnum | JStr string

fun ToBoolean :: "jsval \<Rightarrow> bool" where
  "ToBoolean JNull = False"
| "ToBoolean (JNum n) = (n \<noteq> NaN \<and> n \<noteq> Fin 0)"
| "ToBoolean (JStr s) = (s \<noteq> [])"

definition js_or :: "jsval \<Rightarrow> jsval \<Rightarrow> jsval" where
  \<comment> \<open>the operator \<open>||\<close>: the left operand when it is truthy, else the right one\<close>
  "js_or a b = (if ToBoolean a then a else b)"

fun js_includes :: "string \<Rightarrow> string \<Rightarrow> bool" where
  \<comment> \<open>\<open>String.prototype.includes\<close>: the second string occurs in the first\<close>
  "js_includes [] t = (t = [])"
| "js_includes (c # cs) t = (strip_prefix t (c # cs) \<noteq> None \<or> js_includes cs t)"

fun join :: "string list \<Rightarrow> string \<Rightarrow> string" where
  \<comment> \<open>\<open>Array.prototype.join\<close> on an array of strings\<close>
  "join [] sep = []"
| "join [x] sep = x"
| "join (x # y # ys) sep = x @ sep @ join (y # ys) sep"

definition nl :: string where
  \<comment> \<open>the escape \<open>\n\<close>\<close>
  "nl = [CHR 0x0A]"

definition bullet :: string where
  \<comment> \<open>U+2022\<close>
  "bullet = [CHR 0xE2, CHR 0x80, CHR 0xA2]"

definition check_mark :: string where
  \<comment> \<open>U+2705\<close>
  "check_mark = [CHR 0xE2, CHR 0x9C, CHR 0x85]"

definition bar_chart :: string where
  \<comment> \<open>U+1F4CA\<close>
  "bar_chart = [CHR 0xF0, CHR 0x9F, CHR 0x93, CHR 0x8A]"

definition light_bulb :: string where
  \<comment> \<open>U+1F4A1\<close>
  "light_bulb = [CHR 0xF0, CHR 0x9F, CHR 0x92, CHR 0xA1]"

definition arrow_glyph :: string where
  \<comment> \<open>U+25BC\<close>
  "arrow_glyph = [CHR 0xE2, CHR 0x96, CHR 0xBC]"

section \<open>JSON text\<close>

definition hex_char :: "int \<Rightarrow> char" where
  "hex_char n = (if n < 10 then char_of (48 + n) else char_of (87 + n))"

definition quote_char :: "char \<Rightarrow> string" where
  \<comment> \<open>QuoteJSONString, one character: the short escapes, \<open>\u00XX\<close> for the other control
      characters, everything else as it is\<close>
  "quote_char c =
     (if c = CHR 0x08 then [CHR 0x5C, CHR ''b'']
      else if c = CHR 0x09 then [CHR 0x5C, CHR ''t'']
      else if c = CHR 0x0A then [CHR 0x5C, CHR ''n'']
      else if c = CHR 0x0C then [CHR 0x5C, CHR ''f'']
      else if c = CHR 0x0D then [CHR 0x5C, CHR ''r'']
      else if c = CHR 0x22 then [CHR 0x5C, CHR 0x22]
      else if c = CHR 0x5C then [CHR 0x5C, CHR 0x5C]
      else if (of_char c :: int) < 32
        then [CHR 0x5C, CHR ''u'', CHR ''0'', CHR ''0'',
              hex_char (of_char c div 16), hex_char (of_char c mod 16)]
      else [c])"

definition QuoteJSONString :: "string \<Rightarrow> string" where
  "QuoteJSONString s = [CHR 0x22] @ concat (map quote_char s) @ [CHR 0x22]"

fun SerializeJSONProperty :: "jsval \<Rightarrow> string" where
  "SerializeJSONProperty JNull = ''null''"
| "SerializeJSONProperty (JStr s) = QuoteJSONString s"
| "SerializeJSONProperty (JNum (Fin q)) = Number_toString (Fin q)"
| "SerializeJSONProperty (JNum _) = ''null''"

definition JSON_stringify :: "(string \<times> jsval) list \<Rightarrow> string" where
  \<comment> \<open>\<open>JSON.stringify\<close> of a plain object whose properties, in their order, are the given
      keys and values\<close>
  "JSON_stringify obj =
     ''{'' @ join (map (\<lambda>(k, v). QuoteJSONString k @ '':'' @ SerializeJSONProperty v) obj) '','' @ ''}''"

section \<open>The form and the prediction request\<close>

record FormEntry =
  gender :: string
  age :: string
  occupation :: string
  sleepDuration :: string
  sleepQuality :: string
  physicalActivity :: string
  stressLevel :: string
  bmiCategory :: string
  bloodPressure :: string
  heartRate :: string
  dailySteps :: string
  sleepDisorder :: string

definition initial_form :: FormEntry where
  "initial_form =
     \<lparr>gender = [], age = [], occupation = [], sleepDuration = [], sleepQuality = [],
      physicalActivity = [], stressLevel = [], bmiCategory = [], bloodPressure = [],
      heartRate = [], dailySteps = [], sleepDisorder = []\<rparr>"

definition form_object :: "FormEntry \<Rightarrow> (string \<times> jsval) list" where
  \<comment> \<open>the form as the object \<open>JSON.stringify\<close> sees: twelve string properties in the order
      of the \<open>useState\<close> literal\<close>
  "form_object f =
     [(''gender'', JStr (gender f)), (''age'', JStr (age f)),
      (''occupation'', JStr (occupation f)), (''sleepDuration'', JStr (sleepDuration f)),
      (''sleepQuality'', JStr (sleepQuality f)),
      (''physicalActivity'', JStr (physicalActivity f)),
      (''stressLevel'', JStr (stressLevel f)), (''bmiCategory'', JStr (bmiCategory f)),
      (''bloodPressure'', JStr (bloodPressure f)), (''heartRate'', JStr (heartRate f)),
      (''dailySteps'', JStr (dailySteps f)), (''sleepDisorder'', JStr (sleepDisorder f))]"

definition PredictionRequest :: "FormEntry \<Rightarrow> (string \<times> jsval) list" where
  \<comment> \<open>the object literal of \<open>getPrediction\<close>, the same in both variants\<close>
  "PredictionRequest formData =
     [(''age'', JNum (parseInt (age formData))),
      (''gender'', JStr (gender formData)),
      (''daily_steps'', js_or (JNum (parseFloat (dailySteps formData))) JNull),
      (''physical_activity_minutes'', js_or (JNum (parseFloat (physicalActivity formData))) JNull),
      (''stress_level'', js_or (JNum (parseFloat (stressLevel formData))) JNull),
      (''bmi_category'', js_or (JStr (bmiCategory formData)) JNull)]"

definition field :: "(string \<times> jsval) list \<Rightarrow> string \<Rightarrow> jsval option" where
  \<comment> \<open>reading a property of an object\<close>
  "field obj k = map_of obj k"

section \<open>The runtime: storage, network, console, navigation\<close>

datatype js_error = Error (message: string)

record PredictionResponse =
  prediction :: string
  confidence :: jsnum
  recommendations :: "string list"

record http_request =
  url :: string
  http_method :: string
  headers :: "(string \<times> string) list"
  body :: string

record http_response =
  status :: nat
  body_text :: "js_error + string"
  body_json :: "js_error + PredictionResponse"

definition ok :: "http_response \<Rightarrow> bool" where
  \<comment> \<open>\<open>response.ok\<close>: the status is in the range 200 to 299\<close>
  "ok r = (200 \<le> status r \<and> status r \<le> 299)"

text \<open>
  What the device and the service do is not decided by the screen. A \<open>runtime\<close> says, for
  each storage write, whether \<open>AsyncStorage.setItem\<close> rejects, and for each request, whether
  \<open>fetch\<close> rejects or which response it resolves to; a response says what reading its body
  as text and as JSON gives. A decoded body is taken to have the three properties the
  screen reads. Every rejection carries an error object with a message.
\<close>

record runtime =
  setItem_result :: "string \<Rightarrow> string \<Rightarrow> js_error option"
  fetch_result :: "http_request \<Rightarrow> js_error + http_response"

datatype event =
    Alert string
  | SetLoading bool
  | SetItem string string
  | Fetch http_request
  | ConsoleLog string
  | ConsoleError string
  | GoBack

record world =
  form :: FormEntry
  loading :: bool
  storage :: "string \<rightharpoonup> string"
  trace :: "event list"

definition emit :: "event \<Rightarrow> world \<Rightarrow> world" where
  "emit ev w = w\<lparr>trace := trace w @ [ev]\<rparr>"

definition alert :: "string \<Rightarrow> world \<Rightarrow> world" where
  "alert msg w = emit (Alert msg) w"

definition setLoading :: "bool \<Rightarrow> world \<Rightarrow> world" where
  "setLoading b w = emit (SetLoading b) (w\<lparr>loading := b\<rparr>)"

definition console_log :: "string \<Rightarrow> world \<Rightarrow> world" where
  \<comment> \<open>\<open>console.log\<close>, recorded by its first argument\<close>
  "console_log l w = emit (ConsoleLog l) w"

definition console_error :: "string \<Rightarrow> world \<Rightarrow> world" where
  "console_error l w = emit (ConsoleError l) w"

definition goBack :: "world \<Rightarrow> world" where
  "goBack w = emit GoBack w"

definition AsyncStorage_setItem :: "runtime \<Rightarrow> string \<Rightarrow> string \<Rightarrow> world \<Rightarrow> js_error \<times> world + world" where
  \<comment> \<open>the awaited write: on rejection the error is thrown and the store is as before\<close>
  "AsyncStorage_setItem rt k v w =
     (let w1 = emit (SetItem k v) w
      in case setItem_result rt k v of
           Some e \<Rightarrow> Inl (e, w1)
         | None \<Rightarrow> Inr (w1\<lparr>storage := (storage w1)(k \<mapsto> v)\<rparr>))"

definition API_URL :: string where
  "API_URL = ''https://workspace-sashima.replit.dev''"

definition predict_request :: "FormEntry \<Rightarrow> http_request" where
  \<comment> \<open>the arguments of the \<open>fetch\<close> call, the same in both variants\<close>
  "predict_request formData =
     \<lparr>url = API_URL @ ''/predict'',
      http_method = ''POST'',
      headers = [(''Content-Type'', ''application/json'')],
      body = JSON_stringify (PredictionRequest formData)\<rparr>"

section \<open>The prediction client\<close>

text \<open>
  \<open>getPrediction\<close> is a module-level async function: it sees no state of the screen. It
  has a \<open>try\<close> around its whole body and a \<open>catch\<close> that logs and rethrows. It is modelled
  as a function to the events it causes, in order, and either the error it throws (\<open>Inl\<close>)
  or the decoded response it returns (\<open>Inr\<close>).
\<close>

definition getPrediction_catch_baseline :: "js_error \<Rightarrow> event list \<Rightarrow> event list \<times> (js_error + PredictionResponse)" where
  "getPrediction_catch_baseline error evs = (evs @ [ConsoleError ''API Error:''], Inl error)"

definition getPrediction_baseline :: "runtime \<Rightarrow> FormEntry \<Rightarrow> event list \<times> (js_error + PredictionResponse)" where
  "getPrediction_baseline rt formData =
     (let rq = predict_request formData;
          evs = [Fetch rq]
      in case fetch_result rt rq of
           Inl e \<Rightarrow> getPrediction_catch_baseline e evs
         | Inr response \<Rightarrow>
             if \<not> ok response
             then getPrediction_catch_baseline (Error ''Failed to get prediction'') evs
             else
               (case body_json response of
                  Inl e \<Rightarrow> getPrediction_catch_baseline e evs
                | Inr data \<Rightarrow> (evs, Inr data)))"

definition getPrediction_catch_enhanced :: "js_error \<Rightarrow> event list \<Rightarrow> event list \<times> (js_error + PredictionResponse)" where
  "getPrediction_catch_enhanced error evs =
     (evs @ [ConsoleError ''API Error Details:'', ConsoleError ''Error message:''], Inl error)"

definition server_error :: "http_response \<Rightarrow> string \<Rightarrow> js_error" where
  \<comment> \<open>\<open>new Error(`Server error: ${response.status} - ${errorText}`)\<close>; the status is an
      integer, which prints as its decimal digits\<close>
  "server_error response errorText =
     Error (''Server error: '' @ decimal (int (status response)) @ '' - '' @ errorText)"

definition getPrediction_enhanced :: "runtime \<Rightarrow> FormEntry \<Rightarrow> event list \<times> (js_error + PredictionResponse)" where
  "getPrediction_enhanced rt formData =
     (let rq = predict_request formData;
          evs = [ConsoleLog ''Sending request to:'', ConsoleLog ''Request data:'', Fetch rq]
      in case fetch_result rt rq of
           Inl e \<Rightarrow> getPrediction_catch_enhanced e evs
         | Inr response \<Rightarrow>
             let evs1 = evs @ [ConsoleLog ''Response status:'']
             in if \<not> ok response
                then
                  (case body_text response of
                     Inl e \<Rightarrow> getPrediction_catch_enhanced e evs1
                   | Inr errorText \<Rightarrow>
                       getPrediction_catch_enhanced (server_error response errorText)
                         (evs1 @ [ConsoleLog ''Error response:'']))
                else
                  (case body_json response of
                     Inl e \<Rightarrow> getPrediction_catch_enhanced e evs1
                   | Inr data \<Rightarrow> (evs1 @ [ConsoleLog ''Success! Response:''], Inr data)))"

section \<open>The save workflow\<close>

definition validation_notice :: string where
  "validation_notice = ''Please fill in at least Age and Gender''"

definition percent :: "PredictionResponse \<Rightarrow> string" where
  \<comment> \<open>\<open>(prediction.confidence * 100).toFixed(1)\<close>\<close>
  "percent p = toFixed (js_mul (confidence p) (Fin 100)) 1"

definition success_notice_baseline :: "PredictionResponse \<Rightarrow> string" where
  "success_notice_baseline p =
     ''Sleep Quality Prediction: '' @ prediction p @ nl @ nl
     @ ''Confidence: '' @ percent p @ ''%'' @ nl @ nl
     @ ''Recommendations:'' @ nl @ bullet @ '' '' @ join (recommendations p) (nl @ bullet @ '' '')"

definition success_notice_enhanced :: "PredictionResponse \<Rightarrow> string" where
  "success_notice_enhanced p =
     check_mark @ '' Sleep Quality Prediction: '' @ prediction p @ nl @ nl
     @ bar_chart @ '' Confidence: '' @ percent p @ ''%'' @ nl @ nl
     @ light_bulb @ '' Recommendations:'' @ nl @ bullet @ '' '' @ join (recommendations p) (nl @ bullet @ '' '')"

definition generic_failure_notice :: string where
  "generic_failure_notice =
     ''Error getting prediction. Please check your internet connection and try again.''"

definition network_marker :: string where
  "network_marker = ''Network request failed''"

definition network_failure_notice :: string where
  "network_failure_notice =
     ''Error getting prediction.'' @ nl @ nl
     @ ''Network error: Cannot reach the server.'' @ nl @ nl
     @ ''Solutions:'' @ nl
     @ ''1. Check if the Replit server is running'' @ nl
     @ ''2. Make sure the API_URL is correct'' @ nl
     @ ''3. Try updating the URL in the code''"

definition errorMessage :: "js_error \<Rightarrow> string" where
  \<comment> \<open>the message the enhanced \<open>catch\<close> composes\<close>
  "errorMessage e =
     (if js_includes (message e) network_marker then network_failure_notice
      else if js_includes (message e) ''Server error''
        then ''Error getting prediction.'' @ nl @ nl @ message e
      else ''Error getting prediction.'' @ nl @ nl @ ''Details: '' @ message e)"

definition saveData_catch_baseline :: "js_error \<Rightarrow> world \<Rightarrow> world" where
  "saveData_catch_baseline e w =
     alert generic_failure_notice (console_log (message e) (setLoading False w))"

definition saveData_catch_enhanced :: "js_error \<Rightarrow> world \<Rightarrow> world" where
  "saveData_catch_enhanced e w =
     alert (errorMessage e) (console_log ''Full error:'' (setLoading False w))"

definition guard_fails :: "FormEntry \<Rightarrow> bool" where
  \<comment> \<open>\<open>!form.age || !form.gender\<close>\<close>
  "guard_fails f = (\<not> ToBoolean (JStr (age f)) \<or> \<not> ToBoolean (JStr (gender f)))"

definition snapshot :: "FormEntry \<Rightarrow> string" where
  \<comment> \<open>\<open>JSON.stringify(form)\<close>\<close>
  "snapshot f = JSON_stringify (form_object f)"

definition emit_all :: "event list \<Rightarrow> world \<Rightarrow> world" where
  "emit_all evs w = w\<lparr>trace := trace w @ evs\<rparr>"

definition saveData_try_baseline :: "runtime \<Rightarrow> world \<Rightarrow> js_error \<times> world + world" where
  \<comment> \<open>the \<open>try\<close> block: \<open>Inl\<close> is a throw, with the world at the throw\<close>
  "saveData_try_baseline rt w =
     (if guard_fails (form w) then Inr (alert validation_notice w)
      else
        let w1 = setLoading True w
        in case AsyncStorage_setItem rt ''manualEntry'' (snapshot (form w1)) w1 of
             Inl thrown \<Rightarrow> Inl thrown
           | Inr w2 \<Rightarrow>
               (case getPrediction_baseline rt (form w2) of
                  (evs, Inl e) \<Rightarrow> Inl (e, emit_all evs w2)
                | (evs, Inr result) \<Rightarrow>
                    Inr (goBack (alert (success_notice_baseline result)
                                   (setLoading False (emit_all evs w2))))))"

definition saveData_baseline :: "runtime \<Rightarrow> world \<Rightarrow> world" where
  "saveData_baseline rt w =
     (case saveData_try_baseline rt w of
        Inr w' \<Rightarrow> w'
      | Inl (e, w') \<Rightarrow> saveData_catch_baseline e w')"

definition saveData_try_enhanced :: "runtime \<Rightarrow> world \<Rightarrow> js_error \<times> world + world" where
  "saveData_try_enhanced rt w =
     (if guard_fails (form w) then Inr (alert validation_notice w)
      else
        let w1 = setLoading True w
        in case AsyncStorage_setItem rt ''manualEntry'' (snapshot (form w1)) w1 of
             Inl thrown \<Rightarrow> Inl thrown
           | Inr w2 \<Rightarrow>
               (let w3 = console_log ''Fetching prediction...'' w2
                in case getPrediction_enhanced rt (form w3) of
                     (evs, Inl e) \<Rightarrow> Inl (e, emit_all evs w3)
                   | (evs, Inr result) \<Rightarrow>
                       Inr (goBack (alert (success_notice_enhanced result)
                                      (setLoading False (emit_all evs w3))))))"

definition saveData_enhanced :: "runtime \<Rightarrow> world \<Rightarrow> world" where
  "saveData_enhanced rt w =
     (case saveData_try_enhanced rt w of
        Inr w' \<Rightarrow> w'
      | Inl (e, w') \<Rightarrow> saveData_catch_enhanced e w')"

datatype variant = Baseline | Enhanced

fun getPrediction :: "variant \<Rightarrow> runtime \<Rightarrow> FormEntry \<Rightarrow> event list \<times> (js_error + PredictionResponse)" where
  "getPrediction Baseline rt f = getPrediction_baseline rt f"
| "getPrediction Enhanced rt f = getPrediction_enhanced rt f"

fun saveData_try :: "variant \<Rightarrow> runtime \<Rightarrow> world \<Rightarrow> js_error \<times> world + world" where
  "saveData_try Baseline rt w = saveData_try_baseline rt w"
| "saveData_try Enhanced rt w = saveData_try_enhanced rt w"

fun saveData :: "variant \<Rightarrow> runtime \<Rightarrow> world \<Rightarrow> world" where
  "saveData Baseline rt w = saveData_baseline rt w"
| "saveData Enhanced rt w = saveData_enhanced rt w"

fun success_notice :: "variant \<Rightarrow> PredictionResponse \<Rightarrow> string" where
  "success_notice Baseline p = success_notice_baseline p"
| "success_notice Enhanced p = success_notice_enhanced p"

fun failure_notice :: "variant \<Rightarrow> js_error \<Rightarrow> string" where
  "failure_notice Baseline e = generic_failure_notice"
| "failure_notice Enhanced e = errorMessage e"

definition effects :: "variant \<Rightarrow> runtime \<Rightarrow> world \<Rightarrow> event list" where
  \<comment> \<open>the events one invocation of the save workflow adds to the trace\<close>
  "effects v rt w = drop (length (trace w)) (trace (saveData v rt w))"

definition writes :: "event list \<Rightarrow> (string \<times> string) list" where
  "writes es = concat (map (\<lambda>ev. case ev of SetItem k x \<Rightarrow> [(k, x)] | _ \<Rightarrow> []) es)"

definition requests :: "event list \<Rightarrow> http_request list" where
  "requests es = concat (map (\<lambda>ev. case ev of Fetch rq \<Rightarrow> [rq] | _ \<Rightarrow> []) es)"

definition notices :: "event list \<Rightarrow> string list" where
  "notices es = concat (map (\<lambda>ev. case ev of Alert m \<Rightarrow> [m] | _ \<Rightarrow> []) es)"

definition loading_changes :: "event list \<Rightarrow> bool list" where
  "loading_changes es = concat (map (\<lambda>ev. case ev of SetLoading b \<Rightarrow> [b] | _ \<Rightarrow> []) es)"

section \<open>The option picker\<close>

record PickerOption =
  label :: string
  option_value :: string

datatype text_style = pickerButtonText | pickerButtonTextSelected

record picker_view =
  header_text :: string
  header_style :: text_style
  arrow :: string
  rows :: "string list option"

definition PickerButton :: "string \<Rightarrow> string \<Rightarrow> PickerOption list \<Rightarrow> bool \<Rightarrow> picker_view" where
  \<comment> \<open>what one render shows, for the props \<open>label\<close>, \<open>value\<close>, \<open>options\<close> and the state
      \<open>showOptions\<close>: the header text and its style, the arrow, and the labels of the rows
      (no list at all while collapsed)\<close>
  "PickerButton lbl val options showOptions =
     \<lparr>header_text = (case js_or (JStr val) (JStr lbl) of JStr s \<Rightarrow> s | _ \<Rightarrow> []),
      header_style = (if ToBoolean (JStr val) then pickerButtonTextSelected else pickerButtonText),
      arrow = arrow_glyph,
      rows = (if showOptions then Some (map label options) else None)\<rparr>"

record picker_state =
  showOptions :: bool
  onSelect_calls :: "string list"

definition picker_initial :: picker_state where
  \<comment> \<open>\<open>useState(false)\<close>, and no selection reported yet\<close>
  "picker_initial = \<lparr>showOptions = False, onSelect_calls = []\<rparr>"

definition press_header :: "picker_state \<Rightarrow> picker_state" where
  \<comment> \<open>\<open>onPress\<close> of the header: \<open>setShowOptions(!showOptions)\<close>\<close>
  "press_header st = st\<lparr>showOptions := \<not> showOptions st\<rparr>"

definition press_row :: "PickerOption list \<Rightarrow> nat \<Rightarrow> picker_state \<Rightarrow> picker_state option" where
  \<comment> \<open>\<open>onPress\<close> of the row at an index: \<open>onSelect(option.value); setShowOptions(false)\<close>.
      A row exists only while the list is shown and the index is within \<open>options\<close>.\<close>
  "press_row options i st =
     (if showOptions st \<and> i < length options
      then Some (st\<lparr>showOptions := False,
                     onSelect_calls := onSelect_calls st @ [option_value (options ! i)]\<rparr>)
      else None)"



definition disorder_options :: "PickerOption list" where
  "disorder_options =
     [\<lparr>label = ''None'', option_value = ''None''\<rparr>,
      \<lparr>label = ''Insomnia'', option_value = ''Insomnia''\<rparr>,
      \<lparr>label = ''Sleep Apnea'', option_value = ''Sleep Apnea''\<rparr>]"

section \<open>Auxiliary notions for the statements\<close>

fun write_events :: "variant \<Rightarrow> FormEntry \<Rightarrow> event list" where
  \<comment> \<open>what an accepted save has done once the write has gone through\<close>
  "write_events Baseline f = [SetLoading True, SetItem ''manualEntry'' (snapshot f)]"
| "write_events Enhanced f =
     [SetLoading True, SetItem ''manualEntry'' (snapshot f), ConsoleLog ''Fetching prediction...'']"

fun catch_events :: "variant \<Rightarrow> js_error \<Rightarrow> event list" where
  \<comment> \<open>what the \<open>catch\<close> block of \<open>saveData\<close> does\<close>
  "catch_events Baseline e = [SetLoading False, ConsoleLog (message e), Alert (failure_notice Baseline e)]"
| "catch_events Enhanced e = [SetLoading False, ConsoleLog ''Full error:'', Alert (failure_notice Enhanced e)]"

definition quoted :: "string \<Rightarrow> string" where
  \<comment> \<open>a text between double quotes\<close>
  "quoted s = [CHR 0x22] @ s @ [CHR 0x22]"

fun in_order :: "string list \<Rightarrow> string \<Rightarrow> bool" where
  \<comment> \<open>the strings occur in the text one after the other, without overlap\<close>
  "in_order [] s = True"
| "in_order (x # xs) s = (\<exists>a b. s = a @ x @ b \<and> in_order xs b)"

definition one_decimal :: "string \<Rightarrow> bool" where
  \<comment> \<open>digits, a point, one digit\<close>
  "one_decimal s = (\<exists>ds d. s = ds @ ''.'' @ [d] \<and> ds \<noteq> [] \<and> list_all is_digit ds \<and> is_digit d)"

definition shows_tenths :: "string \<Rightarrow> rat \<Rightarrow> bool" where
  \<comment> \<open>the text is digits, a point and one digit, and read as a number of tenths it is the
      integer nearest to ten times the value (the larger one of two)\<close>
  "shows_tenths s x =
     (\<exists>ds d. s = ds @ ''.'' @ [d] \<and> ds \<noteq> [] \<and> list_all is_digit ds \<and> is_digit d
        \<and> digits_value 10 (ds @ [d]) = \<lfloor>x * 10 + 1 / 2\<rfloor>)"

subsection \<open>Sample inputs\<close>

definition sample_form :: FormEntry where
  "sample_form =
     initial_form\<lparr>age := ''28'', gender := ''Male'', dailySteps := ''4200'',
                  physicalActivity := ''42'', stressLevel := ''6'', bmiCategory := ''Normal''\<rparr>"

definition blank_world :: world where
  \<comment> \<open>the screen as mounted\<close>
  "blank_world = \<lparr>form = initial_form, loading = False, storage = Map.empty, trace = []\<rparr>"

definition sample_world :: world where
  "sample_world = blank_world\<lparr>form := sample_form\<rparr>"

definition sample_response :: PredictionResponse where
  "sample_response =
     \<lparr>prediction = ''Good'', confidence = parseFloat ''0.953'',
      recommendations = [''Take a walk'', ''Reduce stress'']\<rparr>"

definition respond :: "nat \<Rightarrow> string \<Rightarrow> js_error + PredictionResponse \<Rightarrow> runtime" where
  \<comment> \<open>a runtime whose storage works and whose service answers every request alike\<close>
  "respond st txt js =
     \<lparr>setItem_result = (\<lambda>k x. None),
      fetch_result = (\<lambda>rq. Inr \<lparr>status = st, body_text = Inr txt, body_json = js\<rparr>)\<rparr>"

definition storage_rejects :: "string \<Rightarrow> runtime" where
  \<comment> \<open>a runtime whose storage rejects every write with the given message\<close>
  "storage_rejects msg =
     \<lparr>setItem_result = (\<lambda>k x. Some (Error msg)),
      fetch_result = (\<lambda>rq. Inl (Error ''Network request failed''))\<rparr>"

definition unreachable :: runtime where
  \<comment> \<open>a runtime whose storage works and whose network is down\<close>
  "unreachable =
     \<lparr>setItem_result = (\<lambda>k x. None),
      fetch_result = (\<lambda>rq. Inl (Error ''Network request failed''))\<rparr>"

definition letters_world :: world where
  "letters_world = sample_world\<lparr>form := sample_form\<lparr>age := ''abc''\<rparr>\<rparr>"

definition letters_no_gender_world :: world where
  "letters_no_gender_world = blank_world\<lparr>form := initial_form\<lparr>age := ''abc''\<rparr>\<rparr>"

definition blank_age_world :: world where
  "blank_age_world = sample_world\<lparr>form := sample_form\<lparr>age := '' ''\<rparr>\<rparr>"




definition zero_steps_form :: FormEntry where
  "zero_steps_form = sample_form\<lparr>dailySteps := ''0''\<rparr>"

definition good_service :: runtime where
  "good_service = respond 200 ''{}'' (Inr sample_response)"

section \<open>Properties of numbers and their text\<close>

subsection \<open>Rounding stays close\<close>

lemma pow2_powi: "pow2 e = 2 powi e"
  by (simp add: pow2_def power_int_def power_one_over inverse_eq_divide)

lemma pow2_pos: "0 < pow2 e"
  by (simp add: pow2_powi)

lemma pow2_mono: "a \<le> b \<Longrightarrow> pow2 a \<le> pow2 b"
  by (simp add: pow2_powi power_int_increasing)

lemma pow2_diff: "pow2 (int a - int b) = 2 ^ a / 2 ^ b"
  by (simp add: pow2_powi power_int_diff)

lemma ilog2_lower:
  assumes "0 < q"
  shows "pow2 (ilog2 q) \<le> q"
proof -
  obtain n m where nm: "quotient_of q = (n, m)" by (cases "quotient_of q")
  then have m: "0 < m" and q: "q = of_int n / of_int m"
    using quotient_of_denom_pos [of q n m] quotient_of_div [of q n m] by simp_all
  with assms have n: "0 < n"
    by (simp add: zero_less_divide_iff)
  let ?d = "bitlen n - bitlen m"
  show ?thesis
  proof (cases "pow2 ?d \<le> q")
    case True
    then show ?thesis by (simp add: ilog2_def nm)
  next
    case False
    from bitlen_bounds [OF n] have ln: "(2::int) ^ nat (bitlen n - 1) \<le> n" by simp
    from bitlen_bounds [OF m] have um: "m < (2::int) ^ nat (bitlen m)" by simp
    have bn: "1 \<le> bitlen n" using n bitlen_eq_zero_iff [of n] bitlen_nonneg [of n] by linarith
    have bm: "0 \<le> bitlen m" by (rule bitlen_nonneg)
    have "?d - 1 = int (nat (bitlen n - 1)) - int (nat (bitlen m))"
      using bn bm by simp
    then have "pow2 (?d - 1) = 2 ^ nat (bitlen n - 1) / 2 ^ nat (bitlen m)"
      by (simp only: pow2_diff)
    also have "\<dots> \<le> of_int n / 2 ^ nat (bitlen m)"
    proof -
      have "(of_int ((2::int) ^ nat (bitlen n - 1)) :: rat) \<le> of_int n"
        using ln by (simp only: of_int_le_iff)
      then show ?thesis by (simp add: divide_right_mono)
    qed
    also have "\<dots> \<le> of_int n / of_int m"
    proof -
      have "(of_int m :: rat) \<le> of_int ((2::int) ^ nat (bitlen m))"
        using um by (simp only: of_int_le_iff)
      with m n show ?thesis by (simp add: frac_le)
    qed
    finally have "pow2 (?d - 1) \<le> q" by (simp add: q)
    with False show ?thesis by (simp add: ilog2_def nm)
  qed
qed

lemma ilog2_upper:
  assumes "0 < q"
  shows "q < pow2 (ilog2 q + 1)"
proof -
  obtain n m where nm: "quotient_of q = (n, m)" by (cases "quotient_of q")
  then have m: "0 < m" and q: "q = of_int n / of_int m"
    using quotient_of_denom_pos [of q n m] quotient_of_div [of q n m] by simp_all
  with assms have n: "0 < n"
    by (simp add: zero_less_divide_iff)
  let ?d = "bitlen n - bitlen m"
  show ?thesis
  proof (cases "pow2 ?d \<le> q")
    case False
    then show ?thesis by (simp add: ilog2_def nm)
  next
    case True
    from bitlen_bounds [OF n] have un: "n < (2::int) ^ nat (bitlen n)" by simp
    from bitlen_bounds [OF m] have lm: "(2::int) ^ nat (bitlen m - 1) \<le> m" by simp
    have bm: "1 \<le> bitlen m" using m bitlen_eq_zero_iff [of m] bitlen_nonneg [of m] by linarith
    have bn: "0 \<le> bitlen n" by (rule bitlen_nonneg)
    have p: "(0::rat) < 2 ^ nat (bitlen m - 1)" by simp
    have "q = of_int n / of_int m" by (rule q)
    also have "\<dots> \<le> of_int n / 2 ^ nat (bitlen m - 1)"
    proof -
      have "(of_int ((2::int) ^ nat (bitlen m - 1)) :: rat) \<le> of_int m"
        using lm by (simp only: of_int_le_iff)
      with n p show ?thesis by (simp add: frac_le)
    qed
    also have "\<dots> < 2 ^ nat (bitlen n) / 2 ^ nat (bitlen m - 1)"
    proof -
      have "(of_int n :: rat) < of_int ((2::int) ^ nat (bitlen n))"
        using un by (simp only: of_int_less_iff)
      with p show ?thesis by (simp add: divide_strict_right_mono)
    qed
    also have "\<dots> = pow2 (int (nat (bitlen n)) - int (nat (bitlen m - 1)))"
      by (simp only: pow2_diff)
    also have "int (nat (bitlen n)) - int (nat (bitlen m - 1)) = ?d + 1"
      using bn bm by simp
    finally show ?thesis using True by (simp add: ilog2_def nm)
  qed
qed

lemma round_half_even_bounds:
  assumes "0 \<le> x"
  shows "0 \<le> round_half_even x" and "of_int (round_half_even x) \<le> x + 1"
proof -
  have f: "0 \<le> \<lfloor>x\<rfloor>" using assms by simp
  have r: "round_half_even x = \<lfloor>x\<rfloor> \<or> round_half_even x = \<lfloor>x\<rfloor> + 1"
    by (simp add: round_half_even_def Let_def)
  from f r show "0 \<le> round_half_even x"
    by auto
  have "(of_int (round_half_even x) :: rat) \<le> of_int \<lfloor>x\<rfloor> + 1"
    using r by auto
  also have "\<dots> \<le> x + 1" by simp
  finally show "of_int (round_half_even x) \<le> x + 1" .
qed

lemma round_double_not_NaN: "round_double q \<noteq> NaN"
  by (simp add: round_double_def Let_def)

lemma round_double_bounds:
  assumes "0 \<le> q" and "2 * q + 1 < pow2 1024"
  shows "\<exists>v. round_double q = Fin v \<and> 0 \<le> v \<and> v \<le> 2 * q + 1"
proof (cases "q = 0")
  case True
  then show ?thesis by (simp add: round_double_def)
next
  case False
  with assms have q: "0 < q" by simp
  define e where "e = max (ilog2 q) (- 1022)"
  define u where "u = pow2 (e - 52)"
  define v where "v = of_int (round_half_even (q / u)) * u"
  have u0: "0 < u" by (simp add: u_def pow2_pos)
  have u1: "u \<le> q + 1"
  proof (cases "ilog2 q \<le> - 1022")
    case True
    then have "e - 52 \<le> 0" by (simp add: e_def)
    then have "u \<le> pow2 0" unfolding u_def by (rule pow2_mono)
    with q show ?thesis by (simp add: pow2_def)
  next
    case False
    then have "e - 52 \<le> ilog2 q" by (simp add: e_def)
    then have "u \<le> pow2 (ilog2 q)" unfolding u_def by (rule pow2_mono)
    with ilog2_lower [OF q] show ?thesis by simp
  qed
  have x0: "0 \<le> q / u" using q u0 by simp
  have v0: "0 \<le> v"
    using round_half_even_bounds(1) [OF x0] u0 by (simp add: v_def)
  have "v \<le> (q / u + 1) * u"
    unfolding v_def using round_half_even_bounds(2) [OF x0] u0
    by (simp add: mult_right_mono)
  also have "\<dots> = q + u" using u0 by (simp add: field_simps)
  finally have v1: "v \<le> 2 * q + 1" using u1 by simp
  with assms(2) have "\<not> pow2 1024 \<le> v" by simp
  then have "round_double q = Fin v"
    using q by (simp add: round_double_def Let_def v_def u_def e_def)
  with v0 v1 show ?thesis by blast
qed

subsection \<open>Decimal digits\<close>

lemma is_digit_char_of:
  assumes "0 \<le> k" and "k < 10"
  shows "is_digit (char_of (48 + k :: int))"
  using assms by (simp add: is_digit_def)

lemma digit_value_char_of:
  assumes "0 \<le> k" and "k < 10"
  shows "digit_value (char_of (48 + k :: int)) = k"
  using assms by (simp add: digit_value_def Let_def)

lemma decimal_small: "n < 10 \<Longrightarrow> decimal n = [char_of (48 + n)]"
  by (subst decimal.simps) simp

lemma decimal_large: "\<not> n < 10 \<Longrightarrow> decimal n = decimal (n div 10) @ [char_of (48 + n mod 10)]"
  by (subst decimal.simps) simp

lemma decimal_digits:
  "0 \<le> n \<Longrightarrow> decimal n \<noteq> [] \<and> list_all is_digit (decimal n)"
proof (induction n rule: decimal.induct)
  case (1 n)
  show ?case
  proof (cases "n < 10")
    case True
    with "1.prems" show ?thesis
      by (simp add: decimal_small is_digit_char_of)
  next
    case False
    then have "0 \<le> n div 10" by simp
    with "1.IH" False have "list_all is_digit (decimal (n div 10))" by simp
    moreover have "is_digit (char_of (48 + n mod 10))"
      by (rule is_digit_char_of) simp_all
    ultimately show ?thesis
      using False by (simp add: decimal_large)
  qed
qed

lemma digits_value_snoc:
  "digits_value R (ds @ [c]) = digits_value R ds * R + digit_value c"
  by (simp add: digits_value_def)

lemma digits_value_decimal:
  "0 \<le> n \<Longrightarrow> digits_value 10 (decimal n) = n"
proof (induction n rule: decimal.induct)
  case (1 n)
  show ?case
  proof (cases "n < 10")
    case True
    with "1.prems" show ?thesis
      by (simp add: decimal_small digits_value_def digit_value_char_of)
  next
    case False
    then have "0 \<le> n div 10" by simp
    with "1.IH" False have "digits_value 10 (decimal (n div 10)) = n div 10" by simp
    moreover have "digit_value (char_of (48 + n mod 10)) = n mod 10"
      by (rule digit_value_char_of) simp_all
    ultimately show ?thesis
      using False by (simp add: decimal_large digits_value_snoc)
  qed
qed

lemma length_decimal_large:
  assumes "0 \<le> n" and "\<not> n < 10"
  shows "length (decimal n) = length (decimal (n div 10)) + 1" and "0 < length (decimal (n div 10))"
proof -
  from assms have "0 \<le> n div 10" by simp
  from decimal_digits [OF this] show "0 < length (decimal (n div 10))" by simp
  from assms(2) show "length (decimal n) = length (decimal (n div 10)) + 1"
    by (simp add: decimal_large)
qed

lemma char_of_48: "char_of (48 :: int) = CHR ''0''"
  by (simp add: char_of_def)

lemma decimal_0: "decimal 0 = ''0''"
  by (simp add: decimal_small char_of_48)


subsection \<open>One decimal\<close>

lemma fixed_digits_1:
  assumes "0 \<le> n"
  shows "fixed_digits n 1 = decimal (n div 10) @ ''.'' @ [char_of (48 + n mod 10)]"
proof (cases "n < 10")
  case True
  with assms have "n div 10 = 0" "n mod 10 = n" by simp_all
  with True show ?thesis
    by (simp add: fixed_digits_def Let_def decimal_0 decimal_small zeros_def char_of_48)
next
  case False
  note l = length_decimal_large [OF assms False]
  from False have n: "n \<noteq> 0" by simp
  have d: "decimal n = decimal (n div 10) @ [char_of (48 + n mod 10)]"
    using False by (rule decimal_large)
  have "fixed_digits n 1
          = take (length (decimal n) - 1) (decimal n) @ ''.'' @ drop (length (decimal n) - 1) (decimal n)"
    using l n by (simp add: fixed_digits_def Let_def)
  also have "\<dots> = decimal (n div 10) @ ''.'' @ [char_of (48 + n mod 10)]"
    by (simp add: d)
  finally show ?thesis .
qed

lemma toFixed_1:
  assumes "0 \<le> v" and "v < 10 ^ 21"
  shows "toFixed (Fin v) 1 = fixed_digits \<lfloor>v * 10 + 1 / 2\<rfloor> 1"
  using assms by (simp add: toFixed_def Let_def del: floor_add)

lemma one_decimal_toFixed:
  assumes "0 \<le> v" and "v < 10 ^ 21"
  shows "one_decimal (toFixed (Fin v) 1)"
proof -
  define n where "n = \<lfloor>v * 10 + 1 / 2\<rfloor>"
  have n0: "0 \<le> n" using assms(1) by (simp add: n_def)
  then have n1: "0 \<le> n div 10" by simp
  have "is_digit (char_of (48 + n mod 10))"
    by (rule is_digit_char_of) simp_all
  moreover have "toFixed (Fin v) 1 = decimal (n div 10) @ ''.'' @ [char_of (48 + n mod 10)]"
    unfolding toFixed_1 [OF assms] n_def [symmetric] by (rule fixed_digits_1 [OF n0])
  ultimately show ?thesis
    using decimal_digits [OF n1] unfolding one_decimal_def by blast
qed

lemma shows_tenths_toFixed:
  assumes "0 \<le> x" and "x < 10 ^ 21"
  shows "shows_tenths (toFixed (Fin x) 1) x"
proof -
  define n where "n = \<lfloor>x * 10 + 1 / 2\<rfloor>"
  have n0: "0 \<le> n" using assms(1) by (simp add: n_def)
  then have n1: "0 \<le> n div 10" by simp
  have m: "0 \<le> n mod 10" "n mod 10 < 10" by simp_all
  have 1: "is_digit (char_of (48 + n mod 10))"
    by (rule is_digit_char_of [OF m])
  have 2: "toFixed (Fin x) 1 = decimal (n div 10) @ ''.'' @ [char_of (48 + n mod 10)]"
    unfolding toFixed_1 [OF assms] n_def [symmetric] by (rule fixed_digits_1 [OF n0])
  have 3: "digits_value 10 (decimal (n div 10) @ [char_of (48 + n mod 10)]) = n"
    by (simp add: digits_value_snoc digits_value_decimal [OF n1] digit_value_char_of [OF m])
  from 1 2 3 decimal_digits [OF n1] show ?thesis
    unfolding shows_tenths_def n_def [symmetric] by blast
qed

subsection \<open>Parsing\<close>

lemma TrimStart_Nil: "TrimStart [] = []"
  by (simp add: TrimStart_def)

lemma TrimStart_empty_parseInt: "TrimStart s = [] \<Longrightarrow> parseInt s = NaN"
  by (simp add: parseInt_def split_sign_def)

lemma parseFloat_empty: "parseFloat [] = NaN"
  by (simp add: parseFloat_def TrimStart_Nil split_sign_def)

lemma parseFloat_zero: "parseFloat ''0'' = Fin 0"
  by (simp add: parseFloat_def TrimStart_def white_space_def split_sign_def is_digit_def
        digits_value_def digit_value_def round_double_def)

lemma parseFloat_NaN_iff:
  "parseFloat s = NaN \<longleftrightarrow>
     (let u = snd (split_sign (TrimStart s)); r1 = dropWhile is_digit u
      in strip_prefix ''Infinity'' u = None \<and> takeWhile is_digit u = []
         \<and> (r1 \<noteq> [] \<and> hd r1 = CHR ''.'' \<longrightarrow> takeWhile is_digit (tl r1) = []))"
  by (cases "split_sign (TrimStart s)")
     (auto simp: parseFloat_def Let_def round_double_not_NaN)

lemma parseInt_NaN_iff:
  "parseInt s = NaN \<longleftrightarrow>
     (let t = snd (split_sign (TrimStart s))
      in if strip_prefix ''0x'' t \<noteq> None \<or> strip_prefix ''0X'' t \<noteq> None
         then takeWhile is_hex_digit (drop 2 t) = []
         else takeWhile is_digit t = [])"
  by (cases "split_sign (TrimStart s)")
     (auto simp: parseInt_def Let_def round_double_not_NaN)

subsection \<open>Substrings\<close>

lemma strip_prefix_Some_iff: "strip_prefix p s = Some r \<longleftrightarrow> s = p @ r"
  by (induction p s rule: strip_prefix.induct) auto




lemma in_order_prepend: "in_order xs s \<Longrightarrow> in_order xs (p @ s)"
proof (cases xs)
  case Nil
  then show ?thesis by simp
next
  case (Cons x xs')
  assume "in_order xs s"
  with Cons obtain a b where "s = a @ x @ b" "in_order xs' b" by auto
  then have "p @ s = (p @ a) @ x @ b \<and> in_order xs' b" by simp
  with Cons show ?thesis by (auto simp del: append_assoc)
qed

lemma in_order_append:
  "in_order xs a \<Longrightarrow> in_order ys b \<Longrightarrow> in_order (xs @ ys) (a @ b)"
proof (induction xs arbitrary: a)
  case Nil
  then show ?case by (simp add: in_order_prepend)
next
  case (Cons x xs)
  from Cons.prems(1) obtain a1 a2 where a: "a = a1 @ x @ a2" "in_order xs a2" by auto
  from Cons.IH [OF a(2) Cons.prems(2)] have "in_order (xs @ ys) (a2 @ b)" .
  moreover have "a @ b = a1 @ x @ (a2 @ b)" by (simp add: a(1))
  ultimately show ?case by auto
qed

lemma in_order_join: "in_order xs (join xs sep)"
proof (induction xs sep rule: join.induct)
  case (1 sep)
  show ?case by simp
next
  case (2 x sep)
  have "x = [] @ x @ []" by simp
  then have "\<exists>a b. x = a @ x @ b" by blast
  then show ?case by simp
next
  case (3 x y ys sep)
  have "in_order (y # ys) (sep @ join (y # ys) sep)"
    using "3.IH" by (rule in_order_prepend)
  moreover have "join (x # y # ys) sep = [] @ x @ (sep @ join (y # ys) sep)" by simp
  ultimately show ?case
    unfolding in_order.simps(2) [of x] by blast
qed

lemma in_order_two: "in_order [x, y] (a @ x @ b @ y @ c)"
proof -
  have "in_order [y] (b @ y @ c)" by auto
  then show ?thesis by auto
qed

section \<open>Properties of the request\<close>

lemma optional_number_null_iff:
  "js_or (JNum (parseFloat s)) JNull = JNull \<longleftrightarrow> parseFloat s = NaN \<or> parseFloat s = Fin 0"
  by (simp add: js_or_def)

lemma optional_number_kept:
  "parseFloat s \<noteq> NaN \<Longrightarrow> parseFloat s \<noteq> Fin 0
   \<Longrightarrow> js_or (JNum (parseFloat s)) JNull = JNum (parseFloat s)"
  by (simp add: js_or_def)

lemma request_fields:
  "field (PredictionRequest f) ''age'' = Some (JNum (parseInt (age f)))"
  "field (PredictionRequest f) ''gender'' = Some (JStr (gender f))"
  "field (PredictionRequest f) ''daily_steps'' = Some (js_or (JNum (parseFloat (dailySteps f))) JNull)"
  "field (PredictionRequest f) ''physical_activity_minutes''
     = Some (js_or (JNum (parseFloat (physicalActivity f))) JNull)"
  "field (PredictionRequest f) ''stress_level'' = Some (js_or (JNum (parseFloat (stressLevel f))) JNull)"
  "field (PredictionRequest f) ''bmi_category'' = Some (js_or (JStr (bmiCategory f)) JNull)"
  by (simp_all add: field_def PredictionRequest_def)

lemma optional_fields_null_iff:
  "field (PredictionRequest f) ''daily_steps'' = Some JNull
     \<longleftrightarrow> parseFloat (dailySteps f) = NaN \<or> parseFloat (dailySteps f) = Fin 0"
  "field (PredictionRequest f) ''physical_activity_minutes'' = Some JNull
     \<longleftrightarrow> parseFloat (physicalActivity f) = NaN \<or> parseFloat (physicalActivity f) = Fin 0"
  "field (PredictionRequest f) ''stress_level'' = Some JNull
     \<longleftrightarrow> parseFloat (stressLevel f) = NaN \<or> parseFloat (stressLevel f) = Fin 0"
  by (simp_all add: request_fields optional_number_null_iff)

lemma unparsable_age_body:
  assumes "parseInt (age f) = NaN"
  shows "\<exists>rest. body (predict_request f) = ''{'' @ quoted ''age'' @ '':null,'' @ rest"
proof -
  have "QuoteJSONString ''age'' = quoted ''age''"
    by (simp add: QuoteJSONString_def quote_char_def quoted_def)
  then show ?thesis
    using assms by (simp add: predict_request_def PredictionRequest_def JSON_stringify_def)
qed

text \<open>
  Claim C1 says that an optional number of the request is null exactly when its text is
  empty or cannot be parsed, and is the parsed number otherwise. The code departs from it
  at the text "0": \<open>parseFloat\<close> reads the number 0, the number 0 is falsy, and the
  fallback \<open>|| null\<close> puts null in its place. (What the code does in general is
  \<open>optional_fields_null_iff\<close>: null exactly when the parse gives \<open>NaN\<close> or zero.)
\<close>

theorem zero_is_sent_as_null:
  "dailySteps zero_steps_form = ''0''
   \<and> parseFloat (dailySteps zero_steps_form) = Fin 0
   \<and> field (PredictionRequest zero_steps_form) ''daily_steps'' = Some JNull"
  by (simp add: request_fields js_or_def parseFloat_zero zero_steps_form_def)

section \<open>Properties of the save workflow\<close>

subsection \<open>Counting events\<close>

lemmas step_defs = emit_def emit_all_def alert_def setLoading_def console_log_def console_error_def
  goBack_def AsyncStorage_setItem_def

lemma guard_fails_iff: "guard_fails f \<longleftrightarrow> age f = [] \<or> gender f = []"
  by (simp add: guard_fails_def)

lemma writes_simps [simp]:
  "writes [] = []"
  "writes (SetItem k x # es) = (k, x) # writes es"
  "writes (Alert m # es) = writes es"
  "writes (SetLoading b # es) = writes es"
  "writes (Fetch rq # es) = writes es"
  "writes (ConsoleLog l # es) = writes es"
  "writes (ConsoleError l # es) = writes es"
  "writes (GoBack # es) = writes es"
  "writes (es @ es') = writes es @ writes es'"
  by (simp_all add: writes_def)

lemma requests_simps [simp]:
  "requests [] = []"
  "requests (Fetch rq # es) = rq # requests es"
  "requests (Alert m # es) = requests es"
  "requests (SetLoading b # es) = requests es"
  "requests (SetItem k x # es) = requests es"
  "requests (ConsoleLog l # es) = requests es"
  "requests (ConsoleError l # es) = requests es"
  "requests (GoBack # es) = requests es"
  "requests (es @ es') = requests es @ requests es'"
  by (simp_all add: requests_def)

lemma notices_simps [simp]:
  "notices [] = []"
  "notices (Alert m # es) = m # notices es"
  "notices (Fetch rq # es) = notices es"
  "notices (SetLoading b # es) = notices es"
  "notices (SetItem k x # es) = notices es"
  "notices (ConsoleLog l # es) = notices es"
  "notices (ConsoleError l # es) = notices es"
  "notices (GoBack # es) = notices es"
  "notices (es @ es') = notices es @ notices es'"
  by (simp_all add: notices_def)

lemma loading_changes_simps [simp]:
  "loading_changes [] = []"
  "loading_changes (SetLoading b # es) = b # loading_changes es"
  "loading_changes (Alert m # es) = loading_changes es"
  "loading_changes (Fetch rq # es) = loading_changes es"
  "loading_changes (SetItem k x # es) = loading_changes es"
  "loading_changes (ConsoleLog l # es) = loading_changes es"
  "loading_changes (ConsoleError l # es) = loading_changes es"
  "loading_changes (GoBack # es) = loading_changes es"
  "loading_changes (es @ es') = loading_changes es @ loading_changes es'"
  by (simp_all add: loading_changes_def)

lemma requests_skip: "\<forall>r. ev \<noteq> Fetch r \<Longrightarrow> requests (ev # es) = requests es"
  by (cases ev) auto

lemma requests_split:
  "requests es = [rq] \<Longrightarrow> \<exists>a b. es = a @ Fetch rq # b \<and> requests a = [] \<and> requests b = []"
proof (induction es)
  case Nil
  then show ?case by simp
next
  case (Cons ev es)
  show ?case
  proof (cases "\<exists>r. ev = Fetch r")
    case True
    then obtain r where r: "ev = Fetch r" by blast
    with Cons.prems have "r = rq" and "requests es = []" by simp_all
    with r have "ev # es = [] @ Fetch rq # es \<and> requests [] = [] \<and> requests es = []" by simp
    then show ?thesis by blast
  next
    case False
    then have s: "requests (ev # es') = requests es'" for es'
      by (simp add: requests_skip)
    with Cons obtain a b where "es = a @ Fetch rq # b" "requests a = []" "requests b = []"
      by auto
    with s have "ev # es = (ev # a) @ Fetch rq # b \<and> requests (ev # a) = [] \<and> requests b = []"
      by simp
    then show ?thesis by blast
  qed
qed

lemma alert_in_set: "Alert m \<in> set es \<longleftrightarrow> m \<in> set (notices es)"
proof (induction es)
  case Nil
  show ?case by simp
next
  case (Cons ev es)
  then show ?case by (cases ev) auto
qed

lemma client_events_baseline:
  "requests (fst (getPrediction_baseline rt f)) = [predict_request f]
   \<and> writes (fst (getPrediction_baseline rt f)) = []
   \<and> notices (fst (getPrediction_baseline rt f)) = []
   \<and> loading_changes (fst (getPrediction_baseline rt f)) = []
   \<and> GoBack \<notin> set (fst (getPrediction_baseline rt f))"
  by (simp add: getPrediction_baseline_def getPrediction_catch_baseline_def Let_def
        split: sum.splits)

lemma client_events_enhanced:
  "requests (fst (getPrediction_enhanced rt f)) = [predict_request f]
   \<and> writes (fst (getPrediction_enhanced rt f)) = []
   \<and> notices (fst (getPrediction_enhanced rt f)) = []
   \<and> loading_changes (fst (getPrediction_enhanced rt f)) = []
   \<and> GoBack \<notin> set (fst (getPrediction_enhanced rt f))"
  by (simp add: getPrediction_enhanced_def getPrediction_catch_enhanced_def Let_def
        split: sum.splits)

lemma client_events:
  "requests (fst (getPrediction v rt f)) = [predict_request f]"
  "writes (fst (getPrediction v rt f)) = []"
  "notices (fst (getPrediction v rt f)) = []"
  "loading_changes (fst (getPrediction v rt f)) = []"
  "GoBack \<notin> set (fst (getPrediction v rt f))"
  using client_events_baseline [of rt f] client_events_enhanced [of rt f]
  by (cases v; simp)+

lemma client_returns:
  assumes "fetch_result rt (predict_request f) = Inr response" and "ok response"
    and "body_json response = Inr r"
  shows "snd (getPrediction v rt f) = Inr r"
  using assms
  by (cases v)
     (simp_all add: getPrediction_baseline_def getPrediction_enhanced_def Let_def)

lemma client_throws_fetch:
  assumes "fetch_result rt (predict_request f) = Inl e"
  shows "snd (getPrediction v rt f) = Inl e"
  using assms
  by (cases v)
     (simp_all add: getPrediction_baseline_def getPrediction_enhanced_def
        getPrediction_catch_baseline_def getPrediction_catch_enhanced_def Let_def)

lemma client_throws_decode:
  assumes "fetch_result rt (predict_request f) = Inr response" and "ok response"
    and "body_json response = Inl e"
  shows "snd (getPrediction v rt f) = Inl e"
  using assms
  by (cases v)
     (simp_all add: getPrediction_baseline_def getPrediction_enhanced_def
        getPrediction_catch_baseline_def getPrediction_catch_enhanced_def Let_def)

lemma client_throws_status_baseline:
  assumes "fetch_result rt (predict_request f) = Inr response" and "\<not> ok response"
  shows "snd (getPrediction Baseline rt f) = Inl (Error ''Failed to get prediction'')"
  using assms
  by (simp add: getPrediction_baseline_def getPrediction_catch_baseline_def Let_def)

lemma client_throws_text:
  assumes "fetch_result rt (predict_request f) = Inr response" and "\<not> ok response"
    and "body_text response = Inl e"
  shows "snd (getPrediction Enhanced rt f) = Inl e"
  using assms
  by (simp add: getPrediction_enhanced_def getPrediction_catch_enhanced_def Let_def)

lemma client_throws_server_error:
  assumes "fetch_result rt (predict_request f) = Inr response" and "\<not> ok response"
    and "body_text response = Inr t"
  shows "snd (getPrediction Enhanced rt f) = Inl (server_error response t)"
  using assms
  by (simp add: getPrediction_enhanced_def getPrediction_catch_enhanced_def Let_def)

subsection \<open>The four ways a save can go\<close>

lemma saveData_try_rejected:
  assumes "age (form w) = [] \<or> gender (form w) = []"
  shows "saveData_try v rt w = Inr (w\<lparr>trace := trace w @ [Alert validation_notice]\<rparr>)"
  using assms
  by (cases v) (simp_all add: saveData_try_baseline_def saveData_try_enhanced_def guard_fails_iff step_defs)

lemma saveData_try_accepted:
  assumes "age (form w) \<noteq> []" and "gender (form w) \<noteq> []"
  shows "saveData_try v rt w =
     (case setItem_result rt ''manualEntry'' (snapshot (form w)) of
        Some e \<Rightarrow>
          Inl (e, w\<lparr>loading := True,
                    trace := trace w @ [SetLoading True, SetItem ''manualEntry'' (snapshot (form w))]\<rparr>)
      | None \<Rightarrow>
          (case snd (getPrediction v rt (form w)) of
             Inl e \<Rightarrow>
               Inl (e, w\<lparr>loading := True,
                         storage := (storage w)(''manualEntry'' \<mapsto> snapshot (form w)),
                         trace := trace w @ write_events v (form w) @ fst (getPrediction v rt (form w))\<rparr>)
           | Inr r \<Rightarrow>
               Inr (w\<lparr>loading := False,
                      storage := (storage w)(''manualEntry'' \<mapsto> snapshot (form w)),
                      trace := trace w @ write_events v (form w) @ fst (getPrediction v rt (form w))
                               @ [SetLoading False, Alert (success_notice v r), GoBack]\<rparr>)))"
  using assms
  by (cases v)
     (simp_all add: saveData_try_baseline_def saveData_try_enhanced_def guard_fails_iff step_defs Let_def
        split: option.splits sum.splits prod.splits)

lemma saveData_catch:
  "saveData v rt w =
     (case saveData_try v rt w of
        Inr w' \<Rightarrow> w'
      | Inl (e, w') \<Rightarrow> w'\<lparr>loading := False, trace := trace w' @ catch_events v e\<rparr>)"
  by (cases v)
     (simp_all add: saveData_baseline_def saveData_enhanced_def saveData_catch_baseline_def
        saveData_catch_enhanced_def step_defs split: sum.splits prod.splits)

lemma saveData_try_write_failed:
  assumes "age (form w) \<noteq> []" and "gender (form w) \<noteq> []"
    and "setItem_result rt ''manualEntry'' (snapshot (form w)) = Some e"
  shows "saveData_try v rt w =
           Inl (e, w\<lparr>loading := True,
                     trace := trace w @ [SetLoading True, SetItem ''manualEntry'' (snapshot (form w))]\<rparr>)"
  using assms by (simp add: saveData_try_accepted)



lemma effects_eq:
  "trace (saveData v rt w) = trace w @ es \<Longrightarrow> effects v rt w = es"
  by (simp add: effects_def)

lemma saveData_rejected:
  assumes "age (form w) = [] \<or> gender (form w) = []"
  shows "saveData v rt w = w\<lparr>trace := trace w @ [Alert validation_notice]\<rparr>"
  by (simp add: saveData_catch saveData_try_rejected [OF assms])

lemma saveData_write_failed:
  assumes "age (form w) \<noteq> []" and "gender (form w) \<noteq> []"
    and "setItem_result rt ''manualEntry'' (snapshot (form w)) = Some e"
  shows "saveData v rt w =
           w\<lparr>loading := False,
             trace := trace w @ [SetLoading True, SetItem ''manualEntry'' (snapshot (form w))]
                      @ catch_events v e\<rparr>"
  using assms by (simp add: saveData_catch saveData_try_accepted)

lemma saveData_client_failed:
  assumes "age (form w) \<noteq> []" and "gender (form w) \<noteq> []"
    and "setItem_result rt ''manualEntry'' (snapshot (form w)) = None"
    and "snd (getPrediction v rt (form w)) = Inl e"
  shows "saveData v rt w =
           w\<lparr>loading := False,
             storage := (storage w)(''manualEntry'' \<mapsto> snapshot (form w)),
             trace := trace w @ write_events v (form w) @ fst (getPrediction v rt (form w))
                      @ catch_events v e\<rparr>"
  using assms by (simp add: saveData_catch saveData_try_accepted)

lemma saveData_succeeded:
  assumes "age (form w) \<noteq> []" and "gender (form w) \<noteq> []"
    and "setItem_result rt ''manualEntry'' (snapshot (form w)) = None"
    and "snd (getPrediction v rt (form w)) = Inr r"
  shows "saveData v rt w =
           w\<lparr>loading := False,
             storage := (storage w)(''manualEntry'' \<mapsto> snapshot (form w)),
             trace := trace w @ write_events v (form w) @ fst (getPrediction v rt (form w))
                      @ [SetLoading False, Alert (success_notice v r), GoBack]\<rparr>"
  using assms by (simp add: saveData_catch saveData_try_accepted)

lemma write_events_simps [simp]:
  "writes (write_events v f) = [(''manualEntry'', snapshot f)]"
  "requests (write_events v f) = []"
  "notices (write_events v f) = []"
  "loading_changes (write_events v f) = [True]"
  "GoBack \<notin> set (write_events v f)"
  by (cases v; simp)+

lemma catch_events_simps [simp]:
  "writes (catch_events v e) = []"
  "requests (catch_events v e) = []"
  "notices (catch_events v e) = [failure_notice v e]"
  "loading_changes (catch_events v e) = [False]"
  "GoBack \<notin> set (catch_events v e)"
  by (cases v; simp)+

lemma write_events_head:
  "\<exists>tl. write_events v f = SetLoading True # SetItem ''manualEntry'' (snapshot f) # tl \<and> requests tl = []"
  by (cases v) simp_all

lemma effects_write_failed:
  assumes "age (form w) \<noteq> []" and "gender (form w) \<noteq> []"
    and "setItem_result rt ''manualEntry'' (snapshot (form w)) = Some e"
  shows "effects v rt w =
           [SetLoading True, SetItem ''manualEntry'' (snapshot (form w))] @ catch_events v e"
  by (rule effects_eq) (simp add: saveData_write_failed [OF assms])

lemma effects_client_failed:
  assumes "age (form w) \<noteq> []" and "gender (form w) \<noteq> []"
    and "setItem_result rt ''manualEntry'' (snapshot (form w)) = None"
    and "snd (getPrediction v rt (form w)) = Inl e"
  shows "effects v rt w =
           write_events v (form w) @ fst (getPrediction v rt (form w)) @ catch_events v e"
  by (rule effects_eq) (simp add: saveData_client_failed [OF assms])

lemma effects_succeeded:
  assumes "age (form w) \<noteq> []" and "gender (form w) \<noteq> []"
    and "setItem_result rt ''manualEntry'' (snapshot (form w)) = None"
    and "snd (getPrediction v rt (form w)) = Inr r"
  shows "effects v rt w =
           write_events v (form w) @ fst (getPrediction v rt (form w))
           @ [SetLoading False, Alert (success_notice v r), GoBack]"
  by (rule effects_eq) (simp add: saveData_succeeded [OF assms])

lemma effects_after_write:
  assumes "age (form w) \<noteq> []" and "gender (form w) \<noteq> []"
    and "setItem_result rt ''manualEntry'' (snapshot (form w)) = None"
  shows "\<exists>fin. effects v rt w = write_events v (form w) @ fst (getPrediction v rt (form w)) @ fin
            \<and> requests fin = [] \<and> writes fin = []"
proof (cases "snd (getPrediction v rt (form w))")
  case (Inl e)
  from effects_client_failed [OF assms Inl] show ?thesis by simp
next
  case (Inr r)
  from effects_succeeded [OF assms Inr] show ?thesis by simp
qed

lemma sample_accepted:
  "age (form sample_world) \<noteq> []" "gender (form sample_world) \<noteq> []"
  by (simp_all add: sample_world_def sample_form_def initial_form_def)

subsection \<open>The guard\<close>

text \<open>
  Claim C2. When the age or the gender of the form is the empty string, saving shows the
  notice "Please fill in at least Age and Gender" and does nothing else: no storage write,
  no request, no change of the loading flag, and the form and the store are as before.
\<close>

theorem guard_aborts_save:
  assumes "age (form w) = [] \<or> gender (form w) = []"
  shows "effects v rt w = [Alert ''Please fill in at least Age and Gender'']
       \<and> writes (effects v rt w) = []
       \<and> requests (effects v rt w) = []
       \<and> loading_changes (effects v rt w) = []
       \<and> loading (saveData v rt w) = loading w
       \<and> storage (saveData v rt w) = storage w
       \<and> form (saveData v rt w) = form w"
proof -
  have "effects v rt w = [Alert ''Please fill in at least Age and Gender'']"
    by (rule effects_eq) (simp add: saveData_rejected [OF assms] validation_notice_def)
  then show ?thesis
    by (simp add: saveData_rejected [OF assms])
qed

theorem guard_aborts_save_witness:
  "(age (form blank_world) = [] \<or> gender (form blank_world) = [])
   \<and> effects Enhanced unreachable blank_world = [Alert ''Please fill in at least Age and Gender'']
   \<and> writes (effects Enhanced unreachable blank_world) = []
   \<and> requests (effects Enhanced unreachable blank_world) = []
   \<and> loading (saveData Enhanced unreachable blank_world) = False"
proof -
  have h: "age (form blank_world) = [] \<or> gender (form blank_world) = []"
    by (simp add: blank_world_def initial_form_def)
  have "loading blank_world = False"
    by (simp add: blank_world_def)
  with h guard_aborts_save [OF h, of Enhanced unreachable] show ?thesis
    by simp
qed

subsection \<open>One write, then one request\<close>

lemma accepted_writes:
  assumes "age (form w) \<noteq> []" and "gender (form w) \<noteq> []"
  shows "writes (effects v rt w) = [(''manualEntry'', snapshot (form w))]"
proof (cases "setItem_result rt ''manualEntry'' (snapshot (form w))")
  case None
  from effects_after_write [OF assms None, of v] show ?thesis
    by (auto simp: client_events)
next
  case (Some e)
  from effects_write_failed [OF assms Some] show ?thesis by simp
qed

lemma accepted_requests:
  assumes "age (form w) \<noteq> []" and "gender (form w) \<noteq> []"
    and "setItem_result rt ''manualEntry'' (snapshot (form w)) = None"
  shows "requests (effects v rt w) = [predict_request (form w)]"
  using effects_after_write [OF assms, of v] by (auto simp: client_events)

lemma write_before_request:
  assumes "age (form w) \<noteq> []" and "gender (form w) \<noteq> []"
    and "setItem_result rt ''manualEntry'' (snapshot (form w)) = None"
  shows "\<exists>mid post. effects v rt w =
            SetLoading True # SetItem ''manualEntry'' (snapshot (form w)) # mid
            @ Fetch (predict_request (form w)) # post"
proof -
  obtain fin where e: "effects v rt w = write_events v (form w) @ fst (getPrediction v rt (form w)) @ fin"
    using effects_after_write [OF assms, of v] by blast
  obtain tl where t: "write_events v (form w) = SetLoading True # SetItem ''manualEntry'' (snapshot (form w)) # tl"
    using write_events_head [of v "form w"] by blast
  obtain a b where c: "fst (getPrediction v rt (form w)) = a @ Fetch (predict_request (form w)) # b"
    using requests_split [OF client_events(1) [of v rt "form w"]] by blast
  have "effects v rt w =
          SetLoading True # SetItem ''manualEntry'' (snapshot (form w)) # (tl @ a)
          @ Fetch (predict_request (form w)) # (b @ fin)"
    by (simp add: e t c)
  then show ?thesis by blast
qed

text \<open>
  Claim C3, as amended. With a non-empty age and gender, one save makes exactly one storage
  write, of the JSON text of the whole form under the key \<open>manualEntry\<close>. When that
  write succeeds, exactly one request follows, a POST, and the write comes before it in
  the trace. When the write is rejected, no request is made.
\<close>

theorem save_writes_then_requests:
  assumes "age (form w) \<noteq> []" and "gender (form w) \<noteq> []"
  shows "writes (effects v rt w) = [(''manualEntry'', snapshot (form w))]
       \<and> snapshot (form w) = JSON_stringify (form_object (form w))
       \<and> (setItem_result rt ''manualEntry'' (snapshot (form w)) = None \<longrightarrow>
            requests (effects v rt w) = [predict_request (form w)]
            \<and> http_method (predict_request (form w)) = ''POST''
            \<and> (\<exists>mid post. effects v rt w =
                  SetLoading True # SetItem ''manualEntry'' (snapshot (form w)) # mid
                  @ Fetch (predict_request (form w)) # post))
       \<and> (setItem_result rt ''manualEntry'' (snapshot (form w)) \<noteq> None \<longrightarrow>
            requests (effects v rt w) = [])"
proof -
  have 1: "writes (effects v rt w) = [(''manualEntry'', snapshot (form w))]"
    by (rule accepted_writes [OF assms])
  have 2: "snapshot (form w) = JSON_stringify (form_object (form w))"
    by (simp add: snapshot_def)
  have 3: "requests (effects v rt w) = [predict_request (form w)]
         \<and> http_method (predict_request (form w)) = ''POST''
         \<and> (\<exists>mid post. effects v rt w =
                  SetLoading True # SetItem ''manualEntry'' (snapshot (form w)) # mid
                  @ Fetch (predict_request (form w)) # post)"
    if "setItem_result rt ''manualEntry'' (snapshot (form w)) = None"
    using accepted_requests [OF assms that, of v] write_before_request [OF assms that, of v]
    by (simp add: predict_request_def)
  have 4: "requests (effects v rt w) = []"
    if "setItem_result rt ''manualEntry'' (snapshot (form w)) \<noteq> None"
  proof -
    from that obtain e where "setItem_result rt ''manualEntry'' (snapshot (form w)) = Some e" by blast
    from effects_write_failed [OF assms this] show ?thesis by simp
  qed
  from 1 2 3 4 show ?thesis by blast
qed

theorem save_writes_then_requests_witness:
  "age (form sample_world) \<noteq> [] \<and> gender (form sample_world) \<noteq> []
   \<and> setItem_result unreachable ''manualEntry'' (snapshot (form sample_world)) = None
   \<and> writes (effects Baseline unreachable sample_world) = [(''manualEntry'', snapshot (form sample_world))]
   \<and> requests (effects Baseline unreachable sample_world) = [predict_request (form sample_world)]
   \<and> setItem_result (storage_rejects ''quota exceeded'') ''manualEntry''
         (snapshot (form sample_world)) \<noteq> None
   \<and> writes (effects Baseline (storage_rejects ''quota exceeded'') sample_world)
       = [(''manualEntry'', snapshot (form sample_world))]
   \<and> requests (effects Baseline (storage_rejects ''quota exceeded'') sample_world) = []"
proof -
  have s: "setItem_result unreachable ''manualEntry'' (snapshot (form sample_world)) = None"
    by (simp add: unreachable_def)
  have r: "setItem_result (storage_rejects ''quota exceeded'') ''manualEntry''
             (snapshot (form sample_world)) \<noteq> None"
    by (simp add: storage_rejects_def)
  from save_writes_then_requests [OF sample_accepted, of Baseline unreachable]
    save_writes_then_requests [OF sample_accepted, of Baseline "storage_rejects ''quota exceeded''"]
    s r sample_accepted
  show ?thesis by blast
qed

text \<open>
  Claim C3 as stated does not hold: with a store that rejects the write, an accepted form
  is written once and no request is sent.
\<close>

theorem save_without_request_counterexample:
  "age (form sample_world) \<noteq> [] \<and> gender (form sample_world) \<noteq> []
   \<and> writes (effects Enhanced (storage_rejects ''database or disk is full'') sample_world)
       = [(''manualEntry'', snapshot (form sample_world))]
   \<and> requests (effects Enhanced (storage_rejects ''database or disk is full'') sample_world) = []"
proof -
  have "setItem_result (storage_rejects ''database or disk is full'') ''manualEntry''
          (snapshot (form sample_world)) = Some (Error ''database or disk is full'')"
    by (simp add: storage_rejects_def)
  from effects_write_failed [OF sample_accepted this, of Enhanced] sample_accepted
  show ?thesis by simp
qed

subsection \<open>Failures\<close>

lemma catch_outcome:
  assumes "age (form w) \<noteq> []" and "gender (form w) \<noteq> []"
    and "setItem_result rt ''manualEntry'' (snapshot (form w)) = Some e
       \<or> setItem_result rt ''manualEntry'' (snapshot (form w)) = None
         \<and> snd (getPrediction v rt (form w)) = Inl e"
  shows "loading (saveData v rt w) = False
       \<and> notices (effects v rt w) = [failure_notice v e]
       \<and> loading_changes (effects v rt w) = [True, False]
       \<and> GoBack \<notin> set (effects v rt w)
       \<and> form (saveData v rt w) = form w
       \<and> (setItem_result rt ''manualEntry'' (snapshot (form w)) = None \<longrightarrow>
            storage (saveData v rt w) ''manualEntry'' = Some (snapshot (form w)))"
  using assms(3)
proof
  assume s: "setItem_result rt ''manualEntry'' (snapshot (form w)) = Some e"
  from effects_write_failed [OF assms(1,2) s, of v] saveData_write_failed [OF assms(1,2) s, of v] s
  show ?thesis by simp
next
  assume "setItem_result rt ''manualEntry'' (snapshot (form w)) = None
        \<and> snd (getPrediction v rt (form w)) = Inl e"
  then have n: "setItem_result rt ''manualEntry'' (snapshot (form w)) = None"
    and f: "snd (getPrediction v rt (form w)) = Inl e" by simp_all
  from effects_client_failed [OF assms(1,2) n f] saveData_client_failed [OF assms(1,2) n f]
  show ?thesis by (simp add: client_events)
qed

lemma device_outcomes:
  "(\<exists>e. setItem_result rt k x = Some e)
   \<or> setItem_result rt k x = None
     \<and> ((\<exists>e. fetch_result rt rq = Inl e)
        \<or> (\<exists>response.
              fetch_result rt rq = Inr response
              \<and> (\<not> ok response \<and> ((\<exists>e. body_text response = Inl e) \<or> (\<exists>t. body_text response = Inr t))
                 \<or> ok response \<and> ((\<exists>e. body_json response = Inl e) \<or> (\<exists>r. body_json response = Inr r)))))"
proof (cases "setItem_result rt k x")
  case (Some e)
  then show ?thesis by blast
next
  case None
  show ?thesis
  proof (cases "fetch_result rt rq")
    case (Inl e)
    with None show ?thesis by blast
  next
    case (Inr response)
    have t: "(\<exists>e. body_text response = Inl e) \<or> (\<exists>t. body_text response = Inr t)"
      by (cases "body_text response") simp_all
    have j: "(\<exists>e. body_json response = Inl e) \<or> (\<exists>r. body_json response = Inr r)"
      by (cases "body_json response") simp_all
    from None Inr t j show ?thesis by blast
  qed
qed

text \<open>
  Claim C4. The save workflow has passed the guard, and the device fails in the write or
  in the prediction step: the store rejects the write; or, the write having gone through,
  \<open>fetch\<close> rejects, or the service answers with a status outside 200 to 299 (the baseline
  client then throws its fixed error; the enhanced client throws what reading the body
  threw, or else its "Server error" text), or the body of a success answer does not
  decode. By \<open>device_outcomes\<close> these are all the outcomes but the decoded success answer.
  In each of them the workflow ends with the loading flag false (set to true, then to
  false), exactly one notice, the failure notice for the error of that failure, no
  navigation and the form as it was; and when the write had gone through, the snapshot is
  still in the store under \<open>manualEntry\<close>.
\<close>

theorem failure_keeps_user_on_screen:
  assumes "age (form w) \<noteq> []" and "gender (form w) \<noteq> []"
    and "setItem_result rt ''manualEntry'' (snapshot (form w)) = Some e
       \<or> setItem_result rt ''manualEntry'' (snapshot (form w)) = None
         \<and> (fetch_result rt (predict_request (form w)) = Inl e
            \<or> fetch_result rt (predict_request (form w)) = Inr response
              \<and> (\<not> ok response \<and> v = Baseline \<and> e = Error ''Failed to get prediction''
                 \<or> \<not> ok response \<and> v = Enhanced \<and> body_text response = Inl e
                 \<or> \<not> ok response \<and> v = Enhanced \<and> body_text response = Inr t
                     \<and> e = server_error response t
                 \<or> ok response \<and> body_json response = Inl e))"
  shows "loading (saveData v rt w) = False
       \<and> notices (effects v rt w) = [failure_notice v e]
       \<and> loading_changes (effects v rt w) = [True, False]
       \<and> GoBack \<notin> set (effects v rt w)
       \<and> form (saveData v rt w) = form w
       \<and> (setItem_result rt ''manualEntry'' (snapshot (form w)) = None \<longrightarrow>
            storage (saveData v rt w) ''manualEntry'' = Some (snapshot (form w)))"
proof -
  let ?rq = "predict_request (form w)"
  have "setItem_result rt ''manualEntry'' (snapshot (form w)) = Some e
       \<or> setItem_result rt ''manualEntry'' (snapshot (form w)) = None
         \<and> snd (getPrediction v rt (form w)) = Inl e"
    using assms(3)
  proof (elim disjE conjE)
    assume "setItem_result rt ''manualEntry'' (snapshot (form w)) = Some e"
    then show ?thesis by simp
  next
    assume n: "setItem_result rt ''manualEntry'' (snapshot (form w)) = None"
      and "fetch_result rt ?rq = Inl e"
    from client_throws_fetch [OF this(2), of v] n show ?thesis by simp
  next
    assume n: "setItem_result rt ''manualEntry'' (snapshot (form w)) = None"
      and f: "fetch_result rt ?rq = Inr response" and k: "\<not> ok response"
      and v: "v = Baseline" and e: "e = Error ''Failed to get prediction''"
    from client_throws_status_baseline [OF f k] n v e show ?thesis by simp
  next
    assume n: "setItem_result rt ''manualEntry'' (snapshot (form w)) = None"
      and f: "fetch_result rt ?rq = Inr response" and k: "\<not> ok response"
      and v: "v = Enhanced" and t: "body_text response = Inl e"
    from client_throws_text [OF f k t] n v show ?thesis by simp
  next
    assume n: "setItem_result rt ''manualEntry'' (snapshot (form w)) = None"
      and f: "fetch_result rt ?rq = Inr response" and k: "\<not> ok response"
      and v: "v = Enhanced" and t: "body_text response = Inr t"
      and e: "e = server_error response t"
    from client_throws_server_error [OF f k t] n v e show ?thesis by simp
  next
    assume n: "setItem_result rt ''manualEntry'' (snapshot (form w)) = None"
      and f: "fetch_result rt ?rq = Inr response" and k: "ok response"
      and j: "body_json response = Inl e"
    from client_throws_decode [OF f k j, of v] n show ?thesis by simp
  qed
  then show ?thesis
    by (rule catch_outcome [OF assms(1,2)])
qed

theorem failure_keeps_user_on_screen_witness:
  "age (form sample_world) \<noteq> [] \<and> gender (form sample_world) \<noteq> []
   \<and> setItem_result unreachable ''manualEntry'' (snapshot (form sample_world)) = None
   \<and> fetch_result unreachable (predict_request (form sample_world))
       = Inl (Error ''Network request failed'')
   \<and> loading (saveData Enhanced unreachable sample_world) = False
   \<and> notices (effects Enhanced unreachable sample_world) = [network_failure_notice]
   \<and> notices (effects Baseline unreachable sample_world) = [generic_failure_notice]
   \<and> GoBack \<notin> set (effects Enhanced unreachable sample_world)
   \<and> form (saveData Enhanced unreachable sample_world) = sample_form
   \<and> storage (saveData Enhanced unreachable sample_world) ''manualEntry''
       = Some (snapshot sample_form)"
proof -
  let ?e = "Error ''Network request failed''"
  have m: "failure_notice Enhanced ?e = network_failure_notice"
    by (simp add: errorMessage_def network_marker_def)
  have b: "failure_notice Baseline ?e = generic_failure_notice"
    by simp
  have s: "setItem_result unreachable ''manualEntry'' (snapshot (form sample_world)) = None"
    by (simp add: unreachable_def)
  have f: "fetch_result unreachable (predict_request (form sample_world)) = Inl ?e"
    by (simp add: unreachable_def)
  have g: "form sample_world = sample_form"
    by (simp add: sample_world_def)
  have h: "setItem_result unreachable ''manualEntry'' (snapshot (form sample_world)) = Some ?e
       \<or> setItem_result unreachable ''manualEntry'' (snapshot (form sample_world)) = None
         \<and> (fetch_result unreachable (predict_request (form sample_world)) = Inl ?e
            \<or> fetch_result unreachable (predict_request (form sample_world)) = Inr response
              \<and> (\<not> ok response \<and> v = Baseline \<and> ?e = Error ''Failed to get prediction''
                 \<or> \<not> ok response \<and> v = Enhanced \<and> body_text response = Inl ?e
                 \<or> \<not> ok response \<and> v = Enhanced \<and> body_text response = Inr t
                     \<and> ?e = server_error response t
                 \<or> ok response \<and> body_json response = Inl ?e))"
    for v response t
    using s f by blast
  note e = failure_keeps_user_on_screen [OF sample_accepted h, where v = Enhanced]
  note l = failure_keeps_user_on_screen [OF sample_accepted h, where v = Baseline]
  from e l sample_accepted s f show ?thesis
    unfolding m b g by blast
qed

subsection \<open>What the guard does not check\<close>

lemma failure_notice_not_validation: "failure_notice v e \<noteq> validation_notice"
  by (cases v)
     (simp_all add: generic_failure_notice_def validation_notice_def errorMessage_def
        network_failure_notice_def)

lemma success_notice_not_validation: "success_notice v r \<noteq> validation_notice"
  by (cases v)
     (simp_all add: success_notice_baseline_def success_notice_enhanced_def validation_notice_def
        check_mark_def)

lemma accepted_notices:
  assumes "age (form w) \<noteq> []" and "gender (form w) \<noteq> []"
  shows "\<exists>n. notices (effects v rt w) = [n] \<and> n \<noteq> validation_notice"
proof (cases "setItem_result rt ''manualEntry'' (snapshot (form w))")
  case (Some e)
  from effects_write_failed [OF assms Some, of v] show ?thesis
    by (simp add: failure_notice_not_validation)
next
  case None
  show ?thesis
  proof (cases "snd (getPrediction v rt (form w))")
    case (Inl e)
    from effects_client_failed [OF assms None Inl] show ?thesis
      by (simp add: client_events failure_notice_not_validation)
  next
    case (Inr r)
    from effects_succeeded [OF assms None Inr] show ?thesis
      by (simp add: client_events success_notice_not_validation)
  qed
qed

lemma accepted_no_validation_notice:
  assumes "age (form w) \<noteq> []" and "gender (form w) \<noteq> []"
  shows "Alert validation_notice \<notin> set (effects v rt w)"
  using accepted_notices [OF assms, of v rt] by (auto simp: alert_in_set)

lemma rejected_write_no_request:
  assumes "age (form w) \<noteq> []" and "gender (form w) \<noteq> []"
    and "setItem_result rt ''manualEntry'' (snapshot (form w)) \<noteq> None"
  shows "requests (effects v rt w) = []"
proof -
  from assms(3) obtain e where "setItem_result rt ''manualEntry'' (snapshot (form w)) = Some e"
    by blast
  from effects_write_failed [OF assms(1,2) this] show ?thesis by simp
qed

lemma rejected_form_no_request:
  assumes "age (form w) = [] \<or> gender (form w) = []"
  shows "requests (effects v rt w) = []"
proof -
  have "effects v rt w = [Alert validation_notice]"
    by (rule effects_eq) (simp add: saveData_rejected [OF assms])
  then show ?thesis by simp
qed

lemma letters_unparsable: "parseInt ''abc'' = NaN"
  by (simp add: parseInt_def TrimStart_def white_space_def split_sign_def is_digit_def)

lemma blank_trimmed: "TrimStart '' '' = []"
  by (simp add: TrimStart_def white_space_def)

text \<open>
  Claim C9, as amended. With a non-empty age that \<open>parseInt\<close> cannot read and a non-empty
  gender, nothing guards against the parse failure: no validation notice is shown, the
  request object carries \<open>NaN\<close> in its \<open>age\<close> property, and the request is sent when the
  write has gone through, and only then. Its body is the JSON text of that object, in
  which \<open>JSON.stringify\<close> writes \<open>null\<close> for \<open>NaN\<close>.
\<close>

theorem unparsable_age_is_sent:
  assumes "age (form w) \<noteq> []" and "parseInt (age (form w)) = NaN" and "gender (form w) \<noteq> []"
  shows "field (PredictionRequest (form w)) ''age'' = Some (JNum NaN)
       \<and> body (predict_request (form w)) = JSON_stringify (PredictionRequest (form w))
       \<and> (\<exists>rest. body (predict_request (form w)) = ''{'' @ quoted ''age'' @ '':null,'' @ rest)
       \<and> Alert validation_notice \<notin> set (effects v rt w)
       \<and> (setItem_result rt ''manualEntry'' (snapshot (form w)) = None \<longrightarrow>
            requests (effects v rt w) = [predict_request (form w)])
       \<and> (setItem_result rt ''manualEntry'' (snapshot (form w)) \<noteq> None \<longrightarrow>
            requests (effects v rt w) = [])"
proof -
  have 1: "field (PredictionRequest (form w)) ''age'' = Some (JNum NaN)"
    using assms(2) by (simp add: field_def PredictionRequest_def)
  have 2: "body (predict_request (form w)) = JSON_stringify (PredictionRequest (form w))"
    by (simp add: predict_request_def)
  note 3 = accepted_no_validation_notice [OF assms(1,3), of v rt]
  have 4: "requests (effects v rt w) = [predict_request (form w)]"
    if "setItem_result rt ''manualEntry'' (snapshot (form w)) = None"
    by (rule accepted_requests [OF assms(1,3) that])
  note 5 = unparsable_age_body [OF assms(2), of]
  have 6: "requests (effects v rt w) = []"
    if "setItem_result rt ''manualEntry'' (snapshot (form w)) \<noteq> None"
    by (rule rejected_write_no_request [OF assms(1,3) that])
  from 1 2 3 4 5 6 show ?thesis by blast
qed

theorem unparsable_age_is_sent_witness:
  "age (form letters_world) \<noteq> [] \<and> parseInt (age (form letters_world)) = NaN
   \<and> gender (form letters_world) \<noteq> []
   \<and> setItem_result unreachable ''manualEntry'' (snapshot (form letters_world)) = None
   \<and> field (PredictionRequest (form letters_world)) ''age'' = Some (JNum NaN)
   \<and> requests (effects Baseline unreachable letters_world) = [predict_request (form letters_world)]
   \<and> setItem_result (storage_rejects ''quota exceeded'') ''manualEntry''
         (snapshot (form letters_world)) \<noteq> None
   \<and> requests (effects Baseline (storage_rejects ''quota exceeded'') letters_world) = []"
proof -
  have a: "age (form letters_world) \<noteq> []"
    by (simp add: letters_world_def)
  have p: "parseInt (age (form letters_world)) = NaN"
    by (simp add: letters_world_def letters_unparsable)
  have g: "gender (form letters_world) \<noteq> []"
    by (simp add: letters_world_def sample_form_def)
  have s: "setItem_result unreachable ''manualEntry'' (snapshot (form letters_world)) = None"
    by (simp add: unreachable_def)
  have r: "setItem_result (storage_rejects ''quota exceeded'') ''manualEntry''
             (snapshot (form letters_world)) \<noteq> None"
    by (simp add: storage_rejects_def)
  from unparsable_age_is_sent [OF a p g, of Baseline unreachable]
    unparsable_age_is_sent [OF a p g, of Baseline "storage_rejects ''quota exceeded''"]
    a p g s r
  show ?thesis by blast
qed

text \<open>
  Claim C9 as stated does not hold. With the age "abc" and a gender, a store that rejects
  the write leaves the request unsent; with the age "abc" and no gender, the guard stops
  the save and nothing is sent; and the body of the request that is sent for "abc" begins
  with the property \<open>age\<close> written as \<open>null\<close>, not as a number.
\<close>

theorem unparsable_age_unsent_counterexample:
  "age (form letters_world) \<noteq> [] \<and> parseInt (age (form letters_world)) = NaN
   \<and> requests (effects Baseline (storage_rejects ''quota exceeded'') letters_world) = []
   \<and> age (form letters_no_gender_world) \<noteq> []
   \<and> parseInt (age (form letters_no_gender_world)) = NaN
   \<and> requests (effects Baseline unreachable letters_no_gender_world) = []
   \<and> strip_prefix (''{'' @ quoted ''age'' @ '':null,'')
         (body (predict_request (form letters_world))) \<noteq> None"
proof -
  have a: "age (form letters_world) \<noteq> []"
    by (simp add: letters_world_def)
  have p: "parseInt (age (form letters_world)) = NaN"
    by (simp add: letters_world_def letters_unparsable)
  have g: "gender (form letters_world) \<noteq> []"
    by (simp add: letters_world_def sample_form_def)
  have r: "setItem_result (storage_rejects ''quota exceeded'') ''manualEntry''
             (snapshot (form letters_world)) \<noteq> None"
    by (simp add: storage_rejects_def)
  note 1 = rejected_write_no_request [OF a g r, of Baseline]
  have a': "age (form letters_no_gender_world) \<noteq> []"
    by (simp add: letters_no_gender_world_def)
  have p': "parseInt (age (form letters_no_gender_world)) = NaN"
    by (simp add: letters_no_gender_world_def letters_unparsable)
  have "age (form letters_no_gender_world) = [] \<or> gender (form letters_no_gender_world) = []"
    by (simp add: letters_no_gender_world_def initial_form_def)
  note 2 = rejected_form_no_request [OF this, of Baseline unreachable]
  from unparsable_age_body [OF p] obtain rest
    where "body (predict_request (form letters_world)) = ''{'' @ quoted ''age'' @ '':null,'' @ rest"
    by blast
  then have "body (predict_request (form letters_world))
               = (''{'' @ quoted ''age'' @ '':null,'') @ rest"
    by (simp only: append_assoc)
  then have "strip_prefix (''{'' @ quoted ''age'' @ '':null,'')
               (body (predict_request (form letters_world))) = Some rest"
    by (simp only: strip_prefix_Some_iff)
  then have 3: "strip_prefix (''{'' @ quoted ''age'' @ '':null,'')
             (body (predict_request (form letters_world))) \<noteq> None"
    by simp
  from a p 1 a' p' 2 3 show ?thesis by blast
qed

text \<open>
  Claim C10, as amended. An age that is not empty but is white space only, with a
  non-empty gender, passes the guard: no validation notice is shown and the write is made;
  the request follows when the write has gone through, and only then. Nothing trims or
  parses the age before the guard: the very same age is one \<open>parseInt\<close> cannot read.
\<close>

theorem whitespace_age_passes_guard:
  assumes "age (form w) \<noteq> []" and "TrimStart (age (form w)) = []" and "gender (form w) \<noteq> []"
  shows "\<not> guard_fails (form w)
       \<and> Alert validation_notice \<notin> set (effects v rt w)
       \<and> writes (effects v rt w) = [(''manualEntry'', snapshot (form w))]
       \<and> (setItem_result rt ''manualEntry'' (snapshot (form w)) = None \<longrightarrow>
            requests (effects v rt w) = [predict_request (form w)])
       \<and> (setItem_result rt ''manualEntry'' (snapshot (form w)) \<noteq> None \<longrightarrow>
            requests (effects v rt w) = [])
       \<and> parseInt (age (form w)) = NaN"
proof -
  have 1: "\<not> guard_fails (form w)"
    using assms(1,3) by (simp add: guard_fails_iff)
  note 2 = accepted_no_validation_notice [OF assms(1,3), of v rt]
  note 3 = accepted_writes [OF assms(1,3), of v rt]
  have 4: "requests (effects v rt w) = [predict_request (form w)]"
    if "setItem_result rt ''manualEntry'' (snapshot (form w)) = None"
    by (rule accepted_requests [OF assms(1,3) that])
  note 5 = TrimStart_empty_parseInt [OF assms(2)]
  have 6: "requests (effects v rt w) = []"
    if "setItem_result rt ''manualEntry'' (snapshot (form w)) \<noteq> None"
    by (rule rejected_write_no_request [OF assms(1,3) that])
  from 1 2 3 4 5 6 show ?thesis by blast
qed

theorem whitespace_age_passes_guard_witness:
  "age (form blank_age_world) \<noteq> [] \<and> TrimStart (age (form blank_age_world)) = []
   \<and> gender (form blank_age_world) \<noteq> []
   \<and> setItem_result unreachable ''manualEntry'' (snapshot (form blank_age_world)) = None
   \<and> Alert validation_notice \<notin> set (effects Enhanced unreachable blank_age_world)
   \<and> writes (effects Enhanced unreachable blank_age_world)
       = [(''manualEntry'', snapshot (form blank_age_world))]
   \<and> requests (effects Enhanced unreachable blank_age_world)
       = [predict_request (form blank_age_world)]
   \<and> setItem_result (storage_rejects ''quota exceeded'') ''manualEntry''
         (snapshot (form blank_age_world)) \<noteq> None
   \<and> requests (effects Enhanced (storage_rejects ''quota exceeded'') blank_age_world) = []"
proof -
  have a: "age (form blank_age_world) \<noteq> []"
    by (simp add: blank_age_world_def)
  have t: "TrimStart (age (form blank_age_world)) = []"
    by (simp add: blank_age_world_def blank_trimmed)
  have g: "gender (form blank_age_world) \<noteq> []"
    by (simp add: blank_age_world_def sample_form_def)
  have s: "setItem_result unreachable ''manualEntry'' (snapshot (form blank_age_world)) = None"
    by (simp add: unreachable_def)
  have r: "setItem_result (storage_rejects ''quota exceeded'') ''manualEntry''
             (snapshot (form blank_age_world)) \<noteq> None"
    by (simp add: storage_rejects_def)
  from whitespace_age_passes_guard [OF a t g, of Enhanced unreachable]
    whitespace_age_passes_guard [OF a t g, of Enhanced "storage_rejects ''quota exceeded''"]
    a t g s r
  show ?thesis by blast
qed

text \<open>
  Claim C10 as stated does not hold: with the age " " and a gender, a store that rejects
  the write gets the one write and the workflow never reaches the request.
\<close>

theorem whitespace_age_unsent_counterexample:
  "age (form blank_age_world) \<noteq> [] \<and> TrimStart (age (form blank_age_world)) = []
   \<and> gender (form blank_age_world) \<noteq> []
   \<and> writes (effects Enhanced (storage_rejects ''quota exceeded'') blank_age_world)
       = [(''manualEntry'', snapshot (form blank_age_world))]
   \<and> requests (effects Enhanced (storage_rejects ''quota exceeded'') blank_age_world) = []"
proof -
  have a: "age (form blank_age_world) \<noteq> []"
    by (simp add: blank_age_world_def)
  have t: "TrimStart (age (form blank_age_world)) = []"
    by (simp add: blank_age_world_def blank_trimmed)
  have g: "gender (form blank_age_world) \<noteq> []"
    by (simp add: blank_age_world_def sample_form_def)
  have r: "setItem_result (storage_rejects ''quota exceeded'') ''manualEntry''
             (snapshot (form blank_age_world)) \<noteq> None"
    by (simp add: storage_rejects_def)
  note 1 = accepted_writes [OF a g, of Enhanced "storage_rejects ''quota exceeded''"]
  note 2 = rejected_write_no_request [OF a g r, of Enhanced]
  from a t g 1 2 show ?thesis by blast
qed

section \<open>Properties of the failure notices\<close>












section \<open>Properties of the success notice\<close>

lemma percent_in_unit:
  assumes "confidence r = Fin c" and "0 \<le> c" and "c \<le> 1"
  shows "\<exists>v. js_mul (confidence r) (Fin 100) = Fin v \<and> 0 \<le> v \<and> v \<le> 201"
proof -
  have "0 \<le> c * 100" using assms(2) by simp
  moreover have "2 * (c * 100) + 1 < pow2 1024"
  proof -
    have "2 * (c * 100) + 1 \<le> 201" using assms(3) by simp
    also have "\<dots> < pow2 1024" by (simp add: pow2_def)
    finally show ?thesis .
  qed
  ultimately obtain v where "round_double (c * 100) = Fin v" "0 \<le> v" "v \<le> 2 * (c * 100) + 1"
    using round_double_bounds by blast
  with assms show ?thesis by (auto simp: js_mul_def)
qed

lemma percent_one_decimal:
  assumes "confidence r = Fin c" and "0 \<le> c" and "c \<le> 1"
  shows "one_decimal (percent r)"
proof -
  from percent_in_unit [OF assms] obtain v
    where v: "js_mul (confidence r) (Fin 100) = Fin v" "0 \<le> v" "v \<le> 201" by blast
  then have "v < 10 ^ 21" by simp
  with v(2) show ?thesis
    unfolding percent_def v(1) by (rule one_decimal_toFixed)
qed

lemma percent_shows_tenths:
  assumes "confidence r = Fin c" and "0 \<le> c" and "c \<le> 1"
  shows "\<exists>x. js_mul (confidence r) (Fin 100) = Fin x \<and> shows_tenths (percent r) x"
proof -
  from percent_in_unit [OF assms] obtain x
    where x: "js_mul (confidence r) (Fin 100) = Fin x" "0 \<le> x" "x \<le> 201" by blast
  then have "x < 10 ^ 21" by simp
  with x(2) have "shows_tenths (percent r) x"
    unfolding percent_def x(1) by (rule shows_tenths_toFixed)
  with x(1) show ?thesis by blast
qed

lemma success_notice_in_order:
  "in_order ([prediction r, percent r @ ''%''] @ recommendations r) (success_notice v r)"
proof -
  let ?j = "join (recommendations r) (nl @ bullet @ '' '')"
  have j: "in_order (recommendations r) ?j" by (rule in_order_join)
  show ?thesis
  proof (cases v)
    case Baseline
    have "in_order [prediction r, percent r @ ''%'']
            (''Sleep Quality Prediction: '' @ prediction r @ (nl @ nl @ ''Confidence: '')
             @ (percent r @ ''%'') @ (nl @ nl @ ''Recommendations:'' @ nl @ bullet @ '' ''))"
      by (rule in_order_two)
    from in_order_append [OF this j] show ?thesis
      by (simp add: Baseline success_notice_baseline_def)
  next
    case Enhanced
    have "in_order [prediction r, percent r @ ''%'']
            ((check_mark @ '' Sleep Quality Prediction: '') @ prediction r
             @ (nl @ nl @ bar_chart @ '' Confidence: '')
             @ (percent r @ ''%'') @ (nl @ nl @ light_bulb @ '' Recommendations:'' @ nl @ bullet @ '' ''))"
      by (rule in_order_two)
    from in_order_append [OF this j] show ?thesis
      by (simp add: Enhanced success_notice_enhanced_def)
  qed
qed

text \<open>
  Claim C5. When the write goes through, the service answers with a success status and the
  body decodes to a response, the workflow ends with the loading flag false, and its last
  three steps are: set loading to false, show the success notice, go back. No other notice
  is shown. The notice contains the prediction label, then the percentage followed by
  \<open>%\<close>, then every recommendation in the order of the response. For a confidence
  between 0 and 1 the percentage is digits, a point and exactly one digit, and it is the
  product of the confidence and 100 rounded to the nearest tenth.
\<close>

theorem success_shows_result_and_goes_back:
  assumes "age (form w) \<noteq> []" and "gender (form w) \<noteq> []"
    and "setItem_result rt ''manualEntry'' (snapshot (form w)) = None"
    and "fetch_result rt (predict_request (form w)) = Inr response"
    and "ok response" and "body_json response = Inr r"
  shows "loading (saveData v rt w) = False
       \<and> (\<exists>pre. effects v rt w = pre @ [SetLoading False, Alert (success_notice v r), GoBack]
                 \<and> notices pre = [] \<and> GoBack \<notin> set pre)
       \<and> in_order ([prediction r, percent r @ ''%''] @ recommendations r) (success_notice v r)
       \<and> (confidence r = Fin c \<and> 0 \<le> c \<and> c \<le> 1 \<longrightarrow>
            one_decimal (percent r)
            \<and> (\<exists>x. js_mul (confidence r) (Fin 100) = Fin x \<and> shows_tenths (percent r) x))"
proof -
  have g: "snd (getPrediction v rt (form w)) = Inr r"
    by (rule client_returns [OF assms(4-6)])
  have 1: "loading (saveData v rt w) = False"
    by (simp add: saveData_succeeded [OF assms(1-3) g])
  let ?pre = "write_events v (form w) @ fst (getPrediction v rt (form w))"
  have "effects v rt w = ?pre @ [SetLoading False, Alert (success_notice v r), GoBack]
        \<and> notices ?pre = [] \<and> GoBack \<notin> set ?pre"
    by (simp add: effects_succeeded [OF assms(1-3) g] client_events)
  then have 2: "\<exists>pre. effects v rt w = pre @ [SetLoading False, Alert (success_notice v r), GoBack]
                 \<and> notices pre = [] \<and> GoBack \<notin> set pre"
    by blast
  note 3 = success_notice_in_order [of r v]
  have 4: "one_decimal (percent r)
            \<and> (\<exists>x. js_mul (confidence r) (Fin 100) = Fin x \<and> shows_tenths (percent r) x)"
    if "confidence r = Fin c \<and> 0 \<le> c \<and> c \<le> 1"
    using that percent_one_decimal [of r c] percent_shows_tenths [of r c] by blast
  from 1 2 3 4 show ?thesis by blast
qed

lemma sample_confidence:
  "confidence sample_response = Fin (8583860889768165 / 9007199254740992)"
  unfolding sample_response_def by code_simp

lemma sample_percent: "percent sample_response = ''95.3''"
  unfolding sample_response_def percent_def by code_simp

theorem success_shows_result_and_goes_back_witness:
  "age (form sample_world) \<noteq> [] \<and> gender (form sample_world) \<noteq> []
   \<and> setItem_result good_service ''manualEntry'' (snapshot (form sample_world)) = None
   \<and> fetch_result good_service (predict_request (form sample_world))
       = Inr \<lparr>status = 200, body_text = Inr ''{}'', body_json = Inr sample_response\<rparr>
   \<and> ok \<lparr>status = 200, body_text = Inr ''{}'', body_json = Inr sample_response\<rparr>
   \<and> confidence sample_response = Fin (8583860889768165 / 9007199254740992)
   \<and> loading (saveData Baseline good_service sample_world) = False
   \<and> notices (effects Baseline good_service sample_world)
       = [''Sleep Quality Prediction: Good'' @ nl @ nl @ ''Confidence: 95.3%'' @ nl @ nl
          @ ''Recommendations:'' @ nl @ bullet @ '' Take a walk'' @ nl @ bullet @ '' Reduce stress'']
   \<and> last (effects Baseline good_service sample_world) = GoBack
   \<and> one_decimal ''95.3''"
proof -
  let ?resp = "\<lparr>status = 200, body_text = Inr ''{}'', body_json = Inr sample_response\<rparr>"
  have s: "setItem_result good_service ''manualEntry'' (snapshot (form sample_world)) = None"
    by (simp add: good_service_def respond_def)
  have f: "fetch_result good_service (predict_request (form sample_world)) = Inr ?resp"
    by (simp add: good_service_def respond_def)
  have k: "ok ?resp" by (simp add: ok_def)
  have j: "body_json ?resp = Inr sample_response" by simp
  have c: "confidence sample_response = Fin (8583860889768165 / 9007199254740992)
           \<and> (0::rat) \<le> 8583860889768165 / 9007199254740992
           \<and> (8583860889768165 / 9007199254740992 :: rat) \<le> 1"
    by (simp add: sample_confidence)
  have n: "success_notice Baseline sample_response
       = ''Sleep Quality Prediction: Good'' @ nl @ nl @ ''Confidence: 95.3%'' @ nl @ nl
          @ ''Recommendations:'' @ nl @ bullet @ '' Take a walk'' @ nl @ bullet @ '' Reduce stress''"
    by (simp add: success_notice_baseline_def sample_percent)
       (simp add: sample_response_def)
  note t = success_shows_result_and_goes_back [OF sample_accepted s f k j,
      of Baseline "8583860889768165 / 9007199254740992"]
  from t have 1: "loading (saveData Baseline good_service sample_world) = False" by blast
  from t obtain pre where p: "effects Baseline good_service sample_world
      = pre @ [SetLoading False, Alert (success_notice Baseline sample_response), GoBack]"
      "notices pre = []"
    by blast
  from p have 2: "notices (effects Baseline good_service sample_world)
      = [success_notice Baseline sample_response]" by simp
  from p have 3: "last (effects Baseline good_service sample_world) = GoBack" by simp
  from t c have 4: "one_decimal (percent sample_response)" by blast
  from sample_accepted s f k c 1 2 3 4 show ?thesis
    unfolding n sample_percent by blast
qed

section \<open>Properties of the option picker\<close>





text \<open>
  Claim C8. The picker starts collapsed and shows no rows. Pressing the header while it is
  collapsed expands it, reports nothing, and the rows are the labels of the options in
  their order; no row can be pressed while it is collapsed. Pressing the header while it
  is expanded collapses it and reports nothing. Pressing the row of an option while it is
  expanded reports that option's value, once, and collapses it.
\<close>

theorem picker_state_machine:
  "\<not> showOptions picker_initial
   \<and> rows (PickerButton lbl val options (showOptions picker_initial)) = None
   \<and> (\<not> showOptions st \<longrightarrow>
         showOptions (press_header st)
         \<and> onSelect_calls (press_header st) = onSelect_calls st
         \<and> rows (PickerButton lbl val options (showOptions (press_header st)))
             = Some (map label options)
         \<and> press_row options i st = None)
   \<and> (showOptions st \<longrightarrow>
         \<not> showOptions (press_header st)
         \<and> onSelect_calls (press_header st) = onSelect_calls st
         \<and> rows (PickerButton lbl val options (showOptions (press_header st))) = None)
   \<and> (showOptions st \<and> i < length options \<longrightarrow>
         press_row options i st
           = Some (st\<lparr>showOptions := False,
                       onSelect_calls := onSelect_calls st @ [option_value (options ! i)]\<rparr>))"
  by (simp add: picker_initial_def press_header_def press_row_def PickerButton_def)

theorem picker_state_machine_witness:
  "\<not> showOptions picker_initial
   \<and> showOptions (press_header picker_initial)
   \<and> rows (PickerButton ''Select Option'' [] disorder_options (showOptions (press_header picker_initial)))
       = Some [''None'', ''Insomnia'', ''Sleep Apnea'']
   \<and> (2::nat) < length disorder_options
   \<and> press_row disorder_options 2 (press_header picker_initial)
       = Some \<lparr>showOptions = False, onSelect_calls = [''Sleep Apnea'']\<rparr>
   \<and> \<not> showOptions (press_header (press_header picker_initial))
   \<and> onSelect_calls (press_header (press_header picker_initial)) = []"
proof -
  have a: "\<not> showOptions picker_initial"
    by (simp add: picker_initial_def)
  have b: "showOptions (press_header picker_initial)"
    by (simp add: picker_initial_def press_header_def)
  have l: "(2::nat) < length disorder_options"
    by (simp add: disorder_options_def)
  have m: "map label disorder_options = [''None'', ''Insomnia'', ''Sleep Apnea'']"
    by (simp add: disorder_options_def)
  have v: "option_value (disorder_options ! 2) = ''Sleep Apnea''"
    by (simp add: disorder_options_def)
  have c: "onSelect_calls picker_initial = []"
    by (simp add: picker_initial_def)
  have p: "press_header picker_initial = \<lparr>showOptions = True, onSelect_calls = []\<rparr>"
    by (simp add: picker_initial_def press_header_def)
  from picker_state_machine [of "''Select Option''" "[]" disorder_options picker_initial 2]
    picker_state_machine [of "''Select Option''" "[]" disorder_options "press_header picker_initial" 2]
    a b l m v c
  show ?thesis by (simp add: p)
qed

end
